theory Spec2Isabelle
  imports Main
begin

section \<open>JavaScript strings and numbers\<close>

text \<open>
  The client is \<^verbatim>\<open>src/frontend/script.js\<close>. A JavaScript string is modelled as a
  \<^typ>\<open>string\<close>, each \<^typ>\<open>char\<close> read as one code unit in the range U+0000..U+00FF.
  On that range the functions below are the ECMAScript ones.

  A number is modelled as an integer, and \<open>NaN\<close> as \<open>None\<close>. Every integer of
  magnitude at most \<open>2^53\<close> is a JavaScript number (\<open>safeInteger\<close>), and on these
  \<^verbatim>\<open>parseInt\<close> and \<^verbatim>\<open>String(n)\<close> are the functions below. Beyond them JavaScript
  rounds what it reads to the nearest double, which \<^verbatim>\<open>parseInt\<close> lets overflow to
  \<open>Infinity\<close>, and prints exponents from \<open>10^21\<close> on: that is not modelled, and a
  statement that depends on the digits of a number read or printed is made for safe
  integers. The number of a line of a text is one: a text has fewer than \<open>2^53\<close> code
  units.
\<close>

definition safeInteger :: "int \<Rightarrow> bool" where
  "safeInteger n = (- 9007199254740992 \<le> n \<and> n \<le> 9007199254740992)"

text \<open>\<^verbatim>\<open>String.prototype.trim\<close>: white space and line terminators below U+0100 are
  TAB, LF, VT, FF, CR, SP and NBSP.\<close>

definition isWhiteSpace :: "char \<Rightarrow> bool" where
  "isWhiteSpace c =
     (c = CHR 0x09 \<or> c = CHR 0x0A \<or> c = CHR 0x0B \<or> c = CHR 0x0C \<or> c = CHR 0x0D
      \<or> c = CHR 0x20 \<or> c = CHR 0xA0)"

definition trimStart :: "string \<Rightarrow> string" where
  "trimStart s = dropWhile isWhiteSpace s"

definition trimEnd :: "string \<Rightarrow> string" where
  "trimEnd s = rev (dropWhile isWhiteSpace (rev s))"

definition trim :: "string \<Rightarrow> string" where
  "trim s = trimEnd (trimStart s)"

text \<open>\<^verbatim>\<open>String.prototype.toLowerCase\<close>: below U+0100 the upper-case letters are A-Z,
  U+00C0..U+00D6 and U+00D8..U+00DE, each 32 below its lower-case letter.\<close>

definition toLowerCase_char :: "char \<Rightarrow> char" where
  "toLowerCase_char c =
     (let n = (of_char c :: nat)
      in if (65 \<le> n \<and> n \<le> 90) \<or> (192 \<le> n \<and> n \<le> 222 \<and> n \<noteq> 215)
         then char_of (n + 32) else c)"

definition toLowerCase :: "string \<Rightarrow> string" where
  "toLowerCase s = map toLowerCase_char s"

text \<open>\<^verbatim>\<open>t.includes(s)\<close>: \<open>s\<close> occurs in \<open>t\<close> as a contiguous run.\<close>

fun startsWith :: "string \<Rightarrow> string \<Rightarrow> bool" where
  "startsWith t [] = True"
| "startsWith [] (c # cs) = False"
| "startsWith (x # xs) (c # cs) = (x = c \<and> startsWith xs cs)"

fun includes_str :: "string \<Rightarrow> string \<Rightarrow> bool" where
  "includes_str [] s = (s = [])"
| "includes_str (x # xs) s = (startsWith (x # xs) s \<or> includes_str xs s)"

text \<open>\<^verbatim>\<open>s.split(sep)\<close> for a one-character separator, and \<^verbatim>\<open>parts.join(sep)\<close>.
  The empty string splits into one empty part.\<close>

fun split :: "char \<Rightarrow> string \<Rightarrow> string list" where
  "split sep [] = [[]]"
| "split sep (c # cs) =
     (if c = sep then [] # split sep cs
      else (case split sep cs of [] \<Rightarrow> [[c]] | w # ws \<Rightarrow> (c # w) # ws))"

fun join :: "string \<Rightarrow> string list \<Rightarrow> string" where
  "join sep [] = []"
| "join sep [x] = x"
| "join sep (x # y # ys) = x @ sep @ join sep (y # ys)"

text \<open>\<^verbatim>\<open>String(n)\<close> for an integer: its decimal digits, with a minus sign when negative.\<close>

definition digit_char :: "nat \<Rightarrow> char" where
  "digit_char d = char_of (48 + d)"

function string_of_nat :: "nat \<Rightarrow> string" where
  "string_of_nat n =
     (if n < 10 then [digit_char n] else string_of_nat (n div 10) @ [digit_char (n mod 10)])"
  by pat_completeness auto
termination
  by (relation "measure (\<lambda>n. n)") auto

definition numberToString :: "int \<Rightarrow> string" where
  "numberToString n =
     (if n < 0 then CHR ''-'' # string_of_nat (nat (- n)) else string_of_nat (nat n))"

text \<open>
  \<^verbatim>\<open>parseInt(str)\<close> with no radix (ECMAScript, \<open>parseInt\<close>): strip leading white space,
  read a sign, read the prefix \<open>0x\<close> or \<open>0X\<close> as radix 16, take the longest run of
  digits of the radix, and return \<open>NaN\<close> when that run is empty.
\<close>

definition digitValue :: "char \<Rightarrow> nat" where
  "digitValue c =
     (let n = (of_char c :: nat)
      in if 48 \<le> n \<and> n \<le> 57 then n - 48
         else if 97 \<le> n \<and> n \<le> 102 then n - 87
         else if 65 \<le> n \<and> n \<le> 70 then n - 55
         else 36)"

definition isRadixDigit :: "nat \<Rightarrow> char \<Rightarrow> bool" where
  "isRadixDigit R c = (digitValue c < R)"

definition parseInt :: "string \<Rightarrow> int option" where
  "parseInt str =
     (let S = trimStart str;
          sign = (if S \<noteq> [] \<and> hd S = CHR ''-'' then - 1 else (1::int));
          S1 = (if S \<noteq> [] \<and> (hd S = CHR ''+'' \<or> hd S = CHR ''-'') then tl S else S);
          hex = (startsWith S1 ''0x'' \<or> startsWith S1 ''0X'');
          R = (if hex then 16 else (10::nat));
          S2 = (if hex then drop 2 S1 else S1);
          Z = takeWhile (isRadixDigit R) S2
      in if Z = [] then None
         else Some (sign * int (foldl (\<lambda>a c. a * R + digitValue c) 0 Z)))"

text \<open>
  \<^verbatim>\<open>escapeHtml\<close> (script.js 413-417) assigns the text to \<^verbatim>\<open>div.textContent\<close>
  and reads \<^verbatim>\<open>div.innerHTML\<close> back: the HTML serialisation of a text node, which
  replaces \<open>&\<close>, NBSP, \<open><\<close> and \<open>>\<close> by character references.
\<close>

definition escapeHtml_char :: "char \<Rightarrow> string" where
  "escapeHtml_char c =
     (if c = CHR ''&'' then ''&amp;''
      else if c = CHR 0xA0 then ''&nbsp;''
      else if c = CHR ''<'' then ''&lt;''
      else if c = CHR ''>'' then ''&gt;''
      else [c])"

definition escapeHtml :: "string \<Rightarrow> string" where
  "escapeHtml text = concat (map escapeHtml_char text)"

section \<open>Data model\<close>

text \<open>
  A \<^verbatim>\<open>lineExplanations\<close> object: its properties in the order \<^verbatim>\<open>Object.entries\<close>
  lists them. Property names are the decimal renderings of integers and are identified
  with the integers. ECMAScript lists the array-index names (0 up to \<open>2^32 - 2\<close>) first, in
  ascending order, then the other names in the order they were created; assigning to an
  existing property keeps its place.
\<close>

type_synonym js_object = "(int \<times> string) list"

definition isArrayIndex :: "int \<Rightarrow> bool" where
  "isArrayIndex k = (0 \<le> k \<and> k < 4294967295)"

fun obj_set :: "js_object \<Rightarrow> int \<Rightarrow> string \<Rightarrow> js_object" where
  "obj_set [] k v = [(k, v)]"
| "obj_set ((k', v') # ps) k v =
     (if k' = k then (k, v) # ps
      else if isArrayIndex k \<and> (\<not> isArrayIndex k' \<or> k < k') then (k, v) # (k', v') # ps
      else (k', v') # obj_set ps k v)"

definition obj_get :: "js_object \<Rightarrow> int \<Rightarrow> string option" where
  "obj_get obj k = map_of obj k"

definition Object_entries :: "js_object \<Rightarrow> (int \<times> string) list" where
  "Object_entries obj = obj"

text \<open>The lists that stand for an object: no name twice, and the names in the order
  above (once a name that is not an array index is listed, no array index follows, and
  the array indices ascend).\<close>

fun entries_ordered :: "js_object \<Rightarrow> bool" where
  "entries_ordered [] = True"
| "entries_ordered [p] = True"
| "entries_ordered (p # q # ps) =
     ((isArrayIndex (fst q) \<longrightarrow> isArrayIndex (fst p) \<and> fst p < fst q) \<and> entries_ordered (q # ps))"

definition wellFormedObject :: "js_object \<Rightarrow> bool" where
  "wellFormedObject obj = (distinct (map fst obj) \<and> entries_ordered obj)"

text \<open>A code block as the backend sends it. \<^verbatim>\<open>lineExplanations\<close> may be missing or
  null, which the client tests for (\<^verbatim>\<open>!lineExplanations\<close>): that is \<open>None\<close>.\<close>

record block =
  block_id :: int
  title :: string
  category :: string
  code :: string
  explanation :: string
  lineExplanations :: "js_object option"

text \<open>The object a mutation sends as its JSON body; \<open>None\<close> is a property the object
  literal does not have.\<close>

record blockData =
  data_title :: "string option"
  data_category :: "string option"
  data_code :: string
  data_explanation :: string
  data_lineExplanations :: js_object

text \<open>A value used as a block id: \<^verbatim>\<open>null\<close>, \<^verbatim>\<open>NaN\<close> (what \<^verbatim>\<open>parseInt\<close> gives
  on failure) or an integer; \<open>strict_eq\<close> is \<^verbatim>\<open>===\<close> and \<open>idToString\<close> is what a
  template literal prints.\<close>

datatype js_id = Null | NaN | Num int

fun strict_eq :: "js_id \<Rightarrow> js_id \<Rightarrow> bool" where
  "strict_eq (Num a) (Num b) = (a = b)"
| "strict_eq Null Null = True"
| "strict_eq _ _ = False"

fun idToString :: "js_id \<Rightarrow> string" where
  "idToString Null = ''null''"
| "idToString NaN = ''NaN''"
| "idToString (Num n) = numberToString n"

definition toNumber :: "int option \<Rightarrow> js_id" where
  "toNumber r = (case r of None \<Rightarrow> NaN | Some n \<Rightarrow> Num n)"

section \<open>The network\<close>

text \<open>
  A request as \<^verbatim>\<open>fetch\<close> receives it, and what \<^verbatim>\<open>fetch\<close> answers: it rejects
  (\<open>NetworkFailure\<close>) or resolves to a response with a status and a body. Reading the
  body with \<^verbatim>\<open>response.json()\<close> gives the decoded value when the body is a JSON text
  and rejects with a \<^verbatim>\<open>SyntaxError\<close> otherwise; the empty body is not a JSON text.
\<close>

record options =
  opt_method :: "string option"
  opt_body :: "blockData option"

record request =
  url :: string
  headers :: "(string \<times> string) list"
  req_method :: "string option"
  req_body :: "blockData option"

datatype 'a body = EmptyBody | MalformedBody | JsonBody 'a

record 'a response =
  status :: nat
  body :: "'a body"

datatype 'a fetch_result = NetworkFailure | Response "'a response"

datatype js_error = FetchError | HttpError nat | SyntaxError

text \<open>
  The answers of the backend are typed by its contract: \<^verbatim>\<open>GET /codeblocks\<close> answers
  with an array of code blocks (\<open>fetch_blocks\<close>); the JSON value the other three
  operations answer with is never read by the client (\<open>fetch_value\<close>).
\<close>

record 'j network =
  fetch_blocks :: "request \<Rightarrow> block list fetch_result"
  fetch_value :: "request \<Rightarrow> 'j fetch_result"

section \<open>The page\<close>

text \<open>
  The rendered document is modelled by the values the templates interpolate. A field
  whose name ends in \<open>HTML\<close> is inserted into \<^verbatim>\<open>innerHTML\<close> as it is.

  How the browser parses markup is not modelled. A text without \<open><\<close> (\<open>tagFree\<close>)
  opens no tag and no comment, so the elements of a template that is written with such
  texts are the elements of the document. A text that holds \<open><\<close> may add elements to
  the page or, written before the template's own elements, leave none of them (a title
  that opens a comment or a \<open>script\<close> element swallows what follows it). The
  script looks elements up in the whole document (\<^verbatim>\<open>querySelector('.edit-btn')\<close>,
  \<^verbatim>\<open>querySelectorAll('.block-item')\<close>) and calls a method on what it finds, which
  throws when nothing is found. So once a text that holds \<open><\<close> has been written to the
  page, what the script does is decided by the parser: the state records this as
  \<open>outsideModel\<close>, and a state with \<open>outsideModel\<close> set is not claimed to be the
  state of the program.

  A text that moreover holds no \<open>&\<close>, no NUL and no CR (\<open>plainText\<close>) is, read back
  as \<^verbatim>\<open>textContent\<close>, the text itself.

  The sidebar holds what the page came with (\<open>PageList\<close>), the placeholder
  \<open>No code blocks found\<close> or the entries of the blocks; whether an entry is marked
  active is \<open>None\<close> when that depends on the text the browser reads from markup. The
  viewer holds what the page came with (\<open>PageViewer\<close>), the placeholder that
  \<^verbatim>\<open>handleDelete\<close> writes (\<open>NoSelection\<close>), the read view, the edit view, or the text
  of a template that was written with a title holding \<open><\<close> (\<open>Markup\<close>): of that text
  the model does not say which elements it leaves.
\<close>

definition tagFree :: "string \<Rightarrow> bool" where
  "tagFree t = (CHR ''<'' \<notin> set t)"

definition plainText :: "string \<Rightarrow> bool" where
  "plainText t =
     (CHR ''<'' \<notin> set t \<and> CHR ''&'' \<notin> set t \<and> CHR 0x00 \<notin> set t \<and> CHR 0x0D \<notin> set t)"

record block_item =
  item_active :: "bool option"
  item_titleHTML :: string
  item_metaHTML :: string
  item_blockId :: int

datatype sidebar = PageList | NoBlocksMessage | BlockItems "block_item list"

record code_line =
  clickableClass :: string
  dataLineNumber :: string
  lineTextHTML :: string
  highlighted :: bool

record read_view =
  rv_titleHTML :: string
  rv_dataId :: string
  rv_lines :: "code_line list"
  rv_explanationHTML :: string

record edit_view =
  ev_titleHTML :: string
  ev_dataId :: string
  ev_codeHTML :: string
  ev_explanationHTML :: string
  ev_lineExplanationsHTML :: string

datatype viewer =
  PageViewer | NoSelection | ReadView read_view | EditView edit_view | Markup string

record popup =
  popup_lineNumber :: int
  popup_explanationHTML :: string

text \<open>
  The global variables of the script (\<open>codeBlocks\<close>, \<open>currentBlockId\<close>,
  \<open>isEditMode\<close>, \<open>currentExplanationPopup\<close>), the parts of the document it reads and
  writes, a trace of its effects (the alerts raised, the console errors and the requests
  passed to \<^verbatim>\<open>fetch\<close>), and \<open>outsideModel\<close>.
\<close>

record state =
  codeBlocks :: "block list"
  currentBlockId :: js_id
  isEditMode :: bool
  currentExplanationPopup :: "popup option"
  blocksList :: sidebar
  codeViewer :: viewer
  searchInput_value :: string
  categoryFilter_value :: string
  categoryFilter_options :: "string list"
  modal_display :: string
  editingId :: "string option"
  alerts :: "string list"
  console :: "(string \<times> js_error) list"
  requests :: "request list"
  outsideModel :: bool

section \<open>API functions\<close>

definition API_BASE_URL :: string where
  "API_BASE_URL = ''http://localhost:8000''"

definition response_ok :: "'a response \<Rightarrow> bool" where
  "response_ok r = (200 \<le> status r \<and> status r \<le> 299)"

definition response_json :: "'a response \<Rightarrow> js_error + 'a" where
  "response_json r = (case body r of JsonBody v \<Rightarrow> Inr v | _ \<Rightarrow> Inl SyntaxError)"

definition mkRequest :: "string \<Rightarrow> options \<Rightarrow> request" where
  "mkRequest endpoint opts =
     \<lparr>url = API_BASE_URL @ endpoint,
      headers = [(''Content-Type'', ''application/json'')],
      req_method = opt_method opts,
      req_body = opt_body opts\<rparr>"

text \<open>An asynchronous function returns how its promise settles (\<open>Inl\<close> rejected,
  \<open>Inr\<close> fulfilled) and the state it leaves.\<close>

definition apiRequest ::
  "(request \<Rightarrow> 'a fetch_result) \<Rightarrow> string \<Rightarrow> options \<Rightarrow> state \<Rightarrow> (js_error + 'a) \<times> state" where
  "apiRequest fetch endpoint opts s =
     (let req = mkRequest endpoint opts;
          s1 = s\<lparr>requests := requests s @ [req]\<rparr>;
          tried = (case fetch req of
                     NetworkFailure \<Rightarrow> Inl FetchError
                   | Response r \<Rightarrow>
                       if \<not> response_ok r then Inl (HttpError (status r))
                       else response_json r)
      in case tried of
           Inl error \<Rightarrow> (Inl error, s1\<lparr>console := console s1 @ [(''API request failed:'', error)]\<rparr>)
         | Inr v \<Rightarrow> (Inr v, s1))"

definition createCodeBlock ::
  "(request \<Rightarrow> 'a fetch_result) \<Rightarrow> blockData \<Rightarrow> state \<Rightarrow> (js_error + 'a) \<times> state" where
  "createCodeBlock fetch bd s =
     apiRequest fetch ''/codeblocks'' \<lparr>opt_method = Some ''POST'', opt_body = Some bd\<rparr> s"

definition updateCodeBlock ::
  "(request \<Rightarrow> 'a fetch_result) \<Rightarrow> js_id \<Rightarrow> blockData \<Rightarrow> state \<Rightarrow> (js_error + 'a) \<times> state" where
  "updateCodeBlock fetch blockId bd s =
     apiRequest fetch (''/codeblocks/'' @ idToString blockId)
       \<lparr>opt_method = Some ''PUT'', opt_body = Some bd\<rparr> s"

definition deleteCodeBlock ::
  "(request \<Rightarrow> 'a fetch_result) \<Rightarrow> js_id \<Rightarrow> state \<Rightarrow> (js_error + unit) \<times> state" where
  "deleteCodeBlock fetch blockId s =
     (case apiRequest fetch (''/codeblocks/'' @ idToString blockId)
             \<lparr>opt_method = Some ''DELETE'', opt_body = None\<rparr> s of
        (Inl error, s1) \<Rightarrow> (Inl error, s1)
      | (Inr v, s1) \<Rightarrow> (Inr (), s1))"

section \<open>Rendering\<close>

text \<open>\<^verbatim>\<open>renderBlocksList\<close> (script.js 105-133).\<close>

definition matchesSearch :: "string \<Rightarrow> block \<Rightarrow> bool" where
  "matchesSearch searchTerm b =
     (includes_str (toLowerCase (title b)) searchTerm
      \<or> includes_str (toLowerCase (category b)) searchTerm)"

definition matchesCategory :: "string \<Rightarrow> block \<Rightarrow> bool" where
  "matchesCategory cat b = (cat = [] \<or> category b = cat)"

definition blockElement :: "js_id \<Rightarrow> block \<Rightarrow> block_item" where
  "blockElement cur b =
     \<lparr>item_active = Some (strict_eq cur (Num (block_id b))),
      item_titleHTML = title b,
      item_metaHTML = category b,
      item_blockId = block_id b\<rparr>"

definition renderBlocksList :: "state \<Rightarrow> state" where
  "renderBlocksList s =
     (let searchTerm = toLowerCase (searchInput_value s);
          cat = categoryFilter_value s;
          filteredBlocks =
            filter (\<lambda>b. matchesSearch searchTerm b \<and> matchesCategory cat b) (codeBlocks s)
      in if length filteredBlocks = 0 then s\<lparr>blocksList := NoBlocksMessage\<rparr>
         else s\<lparr>blocksList := BlockItems (map (blockElement (currentBlockId s)) filteredBlocks),
                outsideModel :=
                  (outsideModel s
                   \<or> \<not> list_all (\<lambda>b. tagFree (title b) \<and> tagFree (category b)) filteredBlocks)\<rparr>)"

text \<open>The text the template of a sidebar entry (script.js 126-129) assigns to the
  \<^verbatim>\<open>innerHTML\<close> of the entry.\<close>

definition blockElementHTML :: "block_item \<Rightarrow> string" where
  \<open>blockElementHTML it =
     ''\<newline>'' @
     ''            <div class="block-title">'' @ item_titleHTML it @ ''</div>\<newline>'' @
     ''            <div class="block-meta">'' @ item_metaHTML it @ ''</div>\<newline>'' @
     ''        ''\<close>

text \<open>\<^verbatim>\<open>updateCategoryFilter\<close> (script.js 136-146): the distinct categories in
  first-seen order, after the option for all categories, whose value is empty. The
  rebuilt dropdown selects its first option.\<close>

definition updateCategoryFilter :: "state \<Rightarrow> state" where
  "updateCategoryFilter s =
     (let categories = rev (remdups (rev (map category (codeBlocks s))))
      in s\<lparr>categoryFilter_options := [] # categories, categoryFilter_value := []\<rparr>)"

text \<open>\<^verbatim>\<open>loadCodeBlocks\<close> (script.js 46-55).\<close>

definition loadCodeBlocks :: "'j network \<Rightarrow> state \<Rightarrow> (js_error + unit) \<times> state" where
  "loadCodeBlocks net s =
     (case apiRequest (fetch_blocks net) ''/codeblocks'' \<lparr>opt_method = None, opt_body = None\<rparr> s of
        (Inr blocks, s1) \<Rightarrow>
          (Inr (), updateCategoryFilter (renderBlocksList (s1\<lparr>codeBlocks := blocks\<rparr>)))
      | (Inl error, s1) \<Rightarrow>
          (Inr (), s1\<lparr>console := console s1 @ [(''Failed to load code blocks:'', error)],
                      alerts := alerts s1 @
                        [''Failed to load code blocks. Make sure the backend server is running.'']\<rparr>))"

text \<open>\<^verbatim>\<open>renderReadView\<close> (script.js 173-220). \<open>explanationAt\<close> is the value of
  \<^verbatim>\<open>block.lineExplanations && block.lineExplanations[lineNumber]\<close> when it is a string,
  and \<open>truthy\<close> is its truth value as a condition.\<close>

definition find_block :: "js_id \<Rightarrow> block list \<Rightarrow> block option" where
  "find_block i bs = List.find (\<lambda>b. strict_eq (Num (block_id b)) i) bs"

definition explanationAt :: "block \<Rightarrow> int \<Rightarrow> string option" where
  "explanationAt b lineNumber =
     (case lineExplanations b of None \<Rightarrow> None | Some obj \<Rightarrow> obj_get obj lineNumber)"

definition truthy :: "string option \<Rightarrow> bool" where
  "truthy v = (case v of None \<Rightarrow> False | Some t \<Rightarrow> t \<noteq> [])"

definition codeLineElement :: "block \<Rightarrow> string \<times> nat \<Rightarrow> code_line" where
  "codeLineElement b p =
     (case p of (line, index) \<Rightarrow>
        (let lineNumber = int index + 1;
             hasExplanation = truthy (explanationAt b lineNumber)
         in \<lparr>clickableClass = (if hasExplanation then ''clickable'' else []),
             dataLineNumber = numberToString lineNumber,
             lineTextHTML = escapeHtml line,
             highlighted = False\<rparr>))"

text \<open>\<open>readViewOf\<close> holds the values \<^verbatim>\<open>renderReadView\<close> interpolates, and
  \<open>codeLineHTML\<close> and \<open>readViewHTML\<close> are the texts its templates (script.js 181-186
  and 189-209) make of them.\<close>

definition readViewOf :: "block \<Rightarrow> read_view" where
  "readViewOf b =
     (let codeLines = split CHR 0x0A (code b)
      in \<lparr>rv_titleHTML = title b,
          rv_dataId = numberToString (block_id b),
          rv_lines = map (codeLineElement b) (zip codeLines [0..<length codeLines]),
          rv_explanationHTML = explanation b\<rparr>)"

definition codeLineHTML :: "code_line \<Rightarrow> string" where
  \<open>codeLineHTML l =
     ''\<newline>'' @
     ''            <div class="code-line '' @ clickableClass l @
     ''" data-line-number="'' @ dataLineNumber l @ ''">\<newline>'' @
     ''                <div class="code-line-number"></div>\<newline>'' @
     ''                <div class="code-line-text">'' @ lineTextHTML l @ ''</div>\<newline>'' @
     ''            </div>\<newline>'' @
     ''        ''\<close>

definition readViewHTML :: "read_view \<Rightarrow> string" where
  \<open>readViewHTML rv =
     ''\<newline>'' @
     ''        <div class="code-block">\<newline>'' @
     ''            <div class="code-header">\<newline>'' @
     ''                <h3>'' @ rv_titleHTML rv @ ''</h3>\<newline>'' @
     ''                <div class="code-actions">\<newline>'' @
     ''                    <button class="edit-btn" data-id="'' @ rv_dataId rv @
     ''">Edit</button>\<newline>'' @
     ''                    <button class="delete-btn" data-id="'' @ rv_dataId rv @
     ''">Delete</button>\<newline>'' @
     ''                    <button class="fullscreen-btn" data-id="'' @ rv_dataId rv @
     ''">Fullscreen</button>\<newline>'' @
     ''                </div>\<newline>'' @
     ''            </div>\<newline>'' @
     ''            <div class="code-content">\<newline>'' @
     ''                <div class="code-lines">\<newline>'' @
     ''                    '' @ concat (map codeLineHTML (rv_lines rv)) @ ''\<newline>'' @
     ''                </div>\<newline>'' @
     ''                <div class="code-explanation">\<newline>'' @
     ''                    <h4>Explanation</h4>\<newline>'' @
     ''                    <p>'' @ rv_explanationHTML rv @ ''</p>\<newline>'' @
     ''                </div>\<newline>'' @
     ''            </div>\<newline>'' @
     ''        </div>\<newline>'' @
     ''    ''\<close>

text \<open>The title is written before every element the script looks up afterwards
  (script.js 192, 212-219). With a title without \<open><\<close> the elements of the template are
  in the document; the explanation comes after them and, when it holds \<open><\<close>, may add
  elements of its own. With a title that holds \<open><\<close> the text is written all the same,
  and the lookups are left to the parser.\<close>

definition renderReadView :: "block \<Rightarrow> state \<Rightarrow> state" where
  "renderReadView b s =
     (let rv = readViewOf b
      in if tagFree (title b)
         then s\<lparr>codeViewer := ReadView rv,
                outsideModel := (outsideModel s \<or> \<not> tagFree (explanation b))\<rparr>
         else s\<lparr>codeViewer := Markup (readViewHTML rv), outsideModel := True\<rparr>)"

text \<open>The text the template of the popup (script.js 275-280) assigns to
  \<^verbatim>\<open>innerHTML\<close>.\<close>

definition popupHTML :: "popup \<Rightarrow> string" where
  \<open>popupHTML p =
     ''\<newline>'' @
     ''        <div class="popup-header">\<newline>'' @
     ''            <strong>Line '' @ numberToString (popup_lineNumber p) @ ''</strong>\<newline>'' @
     ''        </div>\<newline>'' @
     ''        <div class="popup-content">'' @ popup_explanationHTML p @ ''</div>\<newline>'' @
     ''    ''\<close>

text \<open>\<^verbatim>\<open>formatLineExplanationsForEdit\<close> (script.js 352-357), with \<open>formatEntry\<close>
  the function it maps over the entries, and \<^verbatim>\<open>renderEditView\<close> (script.js 319-349).\<close>

definition formatEntry :: "int \<times> string \<Rightarrow> string" where
  "formatEntry p = (case p of (line, expl) \<Rightarrow> numberToString line @ '':'' @ expl)"

definition formatLineExplanationsForEdit :: "js_object option \<Rightarrow> string" where
  "formatLineExplanationsForEdit le =
     (case le of
        None \<Rightarrow> []
      | Some obj \<Rightarrow> join [CHR 0x0A] (map formatEntry (Object_entries obj)))"

definition editViewOf :: "block \<Rightarrow> edit_view" where
  "editViewOf b =
     \<lparr>ev_titleHTML = title b,
      ev_dataId = numberToString (block_id b),
      ev_codeHTML = escapeHtml (code b),
      ev_explanationHTML = escapeHtml (explanation b),
      ev_lineExplanationsHTML = formatLineExplanationsForEdit (lineExplanations b)\<rparr>"

definition editViewHTML :: "edit_view \<Rightarrow> string" where
  \<open>editViewHTML ev =
     ''\<newline>'' @
     ''        <div class="code-block">\<newline>'' @
     ''            <div class="code-header">\<newline>'' @
     ''                <h3>Editing: '' @ ev_titleHTML ev @ ''</h3>\<newline>'' @
     ''                <div class="code-actions">\<newline>'' @
     ''                    <button class="save-edit-btn" data-id="'' @ ev_dataId ev @
     ''">Save</button>\<newline>'' @
     ''                    <button class="cancel-edit-btn" data-id="'' @ ev_dataId ev @
     ''">Cancel</button>\<newline>'' @
     ''                </div>\<newline>'' @
     ''            </div>\<newline>'' @
     ''            <div class="code-content">\<newline>'' @
     ''                <div class="form-group">\<newline>'' @
     ''                    <label for="edit-code">Code</label>\<newline>'' @
     ''                    <textarea id="edit-code" class="edit-textarea">'' @ ev_codeHTML ev @
     ''</textarea>\<newline>'' @
     ''                </div>\<newline>'' @
     ''                <div class="form-group">\<newline>'' @
     ''                    <label for="edit-explanation">General Explanation</label>\<newline>'' @
     ''                    <textarea id="edit-explanation" class="explanation-edit">'' @
     ev_explanationHTML ev @ ''</textarea>\<newline>'' @
     ''                </div>\<newline>'' @
     ''                <div class="form-group">\<newline>'' @
     ''                    <label for="edit-line-explanations">Line Explanations (one per line, format: lineNumber:explanation)</label>\<newline>'' @
     ''                    <textarea id="edit-line-explanations" class="explanation-edit" placeholder="1:This line imports the required module&#10;2:This function initializes the application">'' @
     ev_lineExplanationsHTML ev @ ''</textarea>\<newline>'' @
     ''                </div>\<newline>'' @
     ''            </div>\<newline>'' @
     ''        </div>\<newline>'' @
     ''    ''\<close>

text \<open>As in the read view the title comes first (script.js 323, 347-348). The line
  explanations are written unescaped into the last textarea, which a text holding
  \<open><\<close> may close.\<close>

definition renderEditView :: "block \<Rightarrow> state \<Rightarrow> state" where
  "renderEditView b s =
     (let ev = editViewOf b
      in if tagFree (title b)
         then s\<lparr>codeViewer := EditView ev,
                outsideModel := (outsideModel s \<or> \<not> tagFree (ev_lineExplanationsHTML ev))\<rparr>
         else s\<lparr>codeViewer := Markup (editViewHTML ev), outsideModel := True\<rparr>)"

text \<open>\<^verbatim>\<open>displayCodeBlock\<close> (script.js 149-170). An entry is marked active when the
  \<^verbatim>\<open>textContent\<close> of its title element equals the block's title; that text is the
  entry's title when the title is plain text, and is not modelled otherwise.\<close>

definition markActive :: "string \<Rightarrow> sidebar \<Rightarrow> sidebar" where
  "markActive t sb =
     (case sb of
        BlockItems its \<Rightarrow>
          BlockItems
            (map (\<lambda>it. it\<lparr>item_active :=
                           (if plainText (item_titleHTML it) then Some (item_titleHTML it = t)
                            else None)\<rparr>) its)
      | _ \<Rightarrow> sb)"

definition displayCodeBlock :: "js_id \<Rightarrow> state \<Rightarrow> state" where
  "displayCodeBlock i s =
     (let s1 = s\<lparr>currentBlockId := i\<rparr>
      in case find_block i (codeBlocks s1) of
           None \<Rightarrow> s1
         | Some b \<Rightarrow>
             (let s2 = s1\<lparr>blocksList := markActive (title b) (blocksList s1)\<rparr>
              in if isEditMode s2 then renderEditView b s2 else renderReadView b s2))"

section \<open>Event handlers\<close>

text \<open>\<^verbatim>\<open>closeExplanationPopup\<close> (script.js 306-316) and \<^verbatim>\<open>showExplanationPopup\<close>
  (script.js 268-303); where the popup is placed on the screen is not modelled. The
  explanation is written unescaped into the popup.\<close>

definition clearHighlights :: "viewer \<Rightarrow> viewer" where
  "clearHighlights v =
     (case v of
        ReadView rv \<Rightarrow> ReadView (rv\<lparr>rv_lines := map (\<lambda>l. l\<lparr>highlighted := False\<rparr>) (rv_lines rv)\<rparr>)
      | _ \<Rightarrow> v)"


definition closeExplanationPopup :: "state \<Rightarrow> state" where
  "closeExplanationPopup s =
     s\<lparr>currentExplanationPopup := None, codeViewer := clearHighlights (codeViewer s)\<rparr>"

definition showExplanationPopup :: "string \<Rightarrow> int \<Rightarrow> state \<Rightarrow> state" where
  "showExplanationPopup expl lineNumber s =
     (let s1 = closeExplanationPopup s
      in s1\<lparr>currentExplanationPopup :=
              Some \<lparr>popup_lineNumber = lineNumber, popup_explanationHTML = expl\<rparr>,
            outsideModel := (outsideModel s1 \<or> \<not> tagFree expl)\<rparr>)"



text \<open>\<^verbatim>\<open>handleDelete\<close> (script.js 223-239): \<open>confirmed\<close> is the user's answer to the
  confirmation dialog and \<open>dataset_id\<close> the \<^verbatim>\<open>data-id\<close> of the clicked button.
  \<open>handleDelete_try\<close> is the body of the \<^verbatim>\<open>try\<close> block.\<close>

definition handleDelete_try :: "'j network \<Rightarrow> js_id \<Rightarrow> state \<Rightarrow> (js_error + unit) \<times> state" where
  "handleDelete_try net blockId s =
     (case deleteCodeBlock (fetch_value net) blockId s of
        (Inl error, s1) \<Rightarrow> (Inl error, s1)
      | (Inr u, s1) \<Rightarrow>
          (case loadCodeBlocks net s1 of
             (Inl error, s2) \<Rightarrow> (Inl error, s2)
           | (Inr u2, s2) \<Rightarrow> (Inr (), s2\<lparr>codeViewer := NoSelection, currentBlockId := Null\<rparr>)))"

definition handleDelete :: "'j network \<Rightarrow> bool \<Rightarrow> string \<Rightarrow> state \<Rightarrow> state" where
  "handleDelete net confirmed dataset_id s =
     (let blockId = toNumber (parseInt dataset_id)
      in if confirmed then
           (case handleDelete_try net blockId s of
              (Inl error, s1) \<Rightarrow> s1\<lparr>alerts := alerts s1 @ [''Failed to delete code block'']\<rparr>
            | (Inr u, s1) \<Rightarrow> s1)
         else s)"


definition cancelEdit :: "state \<Rightarrow> state" where
  "cancelEdit s =
     (let s1 = s\<lparr>isEditMode := False\<rparr>
      in displayCodeBlock (currentBlockId s1) s1)"

text \<open>The parser of the line-explanation textarea, written out twice in the script with
  the same text (script.js 381-393 in \<^verbatim>\<open>saveEdit\<close>, 464-478 in
  \<^verbatim>\<open>saveCodeBlock\<close>). \<open>parseLine\<close> is the body of the \<^verbatim>\<open>forEach\<close>.\<close>

definition parseLine :: "js_object \<Rightarrow> string \<Rightarrow> js_object" where
  "parseLine obj line =
     (let parts = split CHR '':'' line
      in if length parts \<ge> 2 then
           (case parseInt (trim (parts ! 0)) of
              None \<Rightarrow> obj
            | Some lineNumber \<Rightarrow> obj_set obj lineNumber (trim (join '':'' (drop 1 parts))))
         else obj)"

definition parseLineExplanations :: "string \<Rightarrow> js_object" where
  "parseLineExplanations lineExplanationsText =
     (if trim lineExplanationsText \<noteq> []
      then foldl parseLine [] (split CHR 0x0A lineExplanationsText)
      else [])"

text \<open>\<^verbatim>\<open>saveEdit\<close> (script.js 373-410); the three strings are the values of the
  textareas \<^verbatim>\<open>edit-code\<close>, \<^verbatim>\<open>edit-explanation\<close> and
  \<^verbatim>\<open>edit-line-explanations\<close> when Save is pressed.\<close>

definition saveEdit_data :: "string \<Rightarrow> string \<Rightarrow> string \<Rightarrow> blockData" where
  "saveEdit_data newCode newExplanation lineExplanationsText =
     \<lparr>data_title = None,
      data_category = None,
      data_code = newCode,
      data_explanation = newExplanation,
      data_lineExplanations = parseLineExplanations lineExplanationsText\<rparr>"

definition saveEdit_try :: "'j network \<Rightarrow> blockData \<Rightarrow> state \<Rightarrow> (js_error + unit) \<times> state" where
  "saveEdit_try net bd s =
     (case updateCodeBlock (fetch_value net) (currentBlockId s) bd s of
        (Inl error, s1) \<Rightarrow> (Inl error, s1)
      | (Inr updatedBlock, s1) \<Rightarrow>
          (case loadCodeBlocks net s1 of
             (Inl error, s2) \<Rightarrow> (Inl error, s2)
           | (Inr u, s2) \<Rightarrow>
               (let s3 = s2\<lparr>isEditMode := False\<rparr>
                in (Inr (), displayCodeBlock (currentBlockId s3) s3))))"

definition saveEdit :: "'j network \<Rightarrow> string \<Rightarrow> string \<Rightarrow> string \<Rightarrow> state \<Rightarrow> state" where
  "saveEdit net newCode newExplanation lineExplanationsText s =
     (case find_block (currentBlockId s) (codeBlocks s) of
        None \<Rightarrow> s
      | Some b \<Rightarrow>
          (case saveEdit_try net (saveEdit_data newCode newExplanation lineExplanationsText) s of
             (Inl error, s1) \<Rightarrow> s1\<lparr>alerts := alerts s1 @ [''Failed to save changes'']\<rparr>
           | (Inr u, s1) \<Rightarrow> s1))"

text \<open>\<^verbatim>\<open>closeModalWindow\<close> (script.js 451-453) and \<^verbatim>\<open>saveCodeBlock\<close>
  (script.js 456-516); the form holds the values of the modal's fields on submit, and
  \<open>editingId\<close> is \<^verbatim>\<open>codeBlockForm.dataset.editingId\<close>.\<close>

record modal_form =
  form_title :: string
  form_category :: string
  form_code :: string
  form_explanation :: string
  form_lineExplanations :: string

definition closeModalWindow :: "state \<Rightarrow> state" where
  "closeModalWindow s = s\<lparr>modal_display := ''none''\<rparr>"

definition saveCodeBlock_data :: "modal_form \<Rightarrow> blockData" where
  "saveCodeBlock_data f =
     \<lparr>data_title = Some (form_title f),
      data_category = Some (form_category f),
      data_code = form_code f,
      data_explanation = form_explanation f,
      data_lineExplanations = parseLineExplanations (form_lineExplanations f)\<rparr>"

definition editingIdNumber :: "state \<Rightarrow> js_id" where
  "editingIdNumber s = (case editingId s of None \<Rightarrow> NaN | Some t \<Rightarrow> toNumber (parseInt t))"

definition saveCodeBlock_mutation ::
  "'j network \<Rightarrow> modal_form \<Rightarrow> state \<Rightarrow> (js_error + 'j) \<times> state" where
  "saveCodeBlock_mutation net f s =
     (let isEdit = truthy (editingId s)
      in if isEdit then updateCodeBlock (fetch_value net) (editingIdNumber s) (saveCodeBlock_data f) s
         else createCodeBlock (fetch_value net) (saveCodeBlock_data f) s)"

definition saveCodeBlock_try :: "'j network \<Rightarrow> modal_form \<Rightarrow> state \<Rightarrow> (js_error + unit) \<times> state" where
  "saveCodeBlock_try net f s =
     (let isEdit = truthy (editingId s)
      in case saveCodeBlock_mutation net f s of
           (Inl error, s1) \<Rightarrow> (Inl error, s1)
         | (Inr v, s1) \<Rightarrow>
             (case loadCodeBlocks net s1 of
                (Inl error, s2) \<Rightarrow> (Inl error, s2)
              | (Inr u, s2) \<Rightarrow>
                  (let s3 = closeModalWindow s2
                   in if isEdit \<and> strict_eq (currentBlockId s3) (editingIdNumber s3)
                      then (Inr (), displayCodeBlock (editingIdNumber s3) (s3\<lparr>isEditMode := False\<rparr>))
                      else (Inr (), s3))))"

definition saveCodeBlock :: "'j network \<Rightarrow> modal_form \<Rightarrow> state \<Rightarrow> state" where
  "saveCodeBlock net f s =
     (case saveCodeBlock_try net f s of
        (Inl error, s1) \<Rightarrow> s1\<lparr>alerts := alerts s1 @ [''Failed to save code block'']\<rparr>
      | (Inr u, s1) \<Rightarrow> s1)"

section \<open>Notions used in the statements and proofs\<close>

text \<open>The characters \<^verbatim>\<open>String(n)\<close> is made of.\<close>

definition isDecimal :: "char \<Rightarrow> bool" where
  "isDecimal c = (48 \<le> (of_char c :: nat) \<and> (of_char c :: nat) \<le> 57)"

definition isNumberChar :: "char \<Rightarrow> bool" where
  "isNumberChar c = (isDecimal c \<or> c = CHR ''-'')"

text \<open>The line number the parser reads from one line of the textarea: what
  \<^verbatim>\<open>parseInt\<close> gives on the trimmed text before the line's first colon, and nothing
  when the line has no colon.\<close>

definition lineNumberOf :: "string \<Rightarrow> int option" where
  "lineNumberOf line =
     (if CHR '':'' \<in> set line then parseInt (trim (takeWhile (\<lambda>c. c \<noteq> CHR '':'') line))
      else None)"

text \<open>The state when the script starts (script.js 5-8): no blocks, no selection, read
  mode, no popup. What the page holds before the script first writes to it is not part of
  the script; those fields start empty.\<close>

definition initialState :: state where
  "initialState =
     \<lparr>codeBlocks = [], currentBlockId = Null, isEditMode = False,
      currentExplanationPopup = None, blocksList = PageList, codeViewer = PageViewer,
      searchInput_value = [], categoryFilter_value = [], categoryFilter_options = [],
      modal_display = [], editingId = None, alerts = [], console = [], requests = [],
      outsideModel = False\<rparr>"

text \<open>The filter of the sidebar in the words of the specification: a block is visible
  when its title or its category contains the search string, case ignored, and the
  selected category is empty or is the block's category.\<close>

definition spec_containsIgnoringCase :: "string \<Rightarrow> string \<Rightarrow> bool" where
  "spec_containsIgnoringCase t s = (\<exists>p r. toLowerCase t = p @ toLowerCase s @ r)"

definition spec_visible :: "string \<Rightarrow> string \<Rightarrow> block \<Rightarrow> bool" where
  "spec_visible s c b =
     ((spec_containsIgnoringCase (title b) s \<or> spec_containsIgnoringCase (category b) s)
      \<and> (c = [] \<or> category b = c))"

text \<open>The four requests of the API, written out: the URL, the one header, the method
  (none is \<open>GET\<close>) and the body.\<close>

definition jsonHeaders :: "(string \<times> string) list" where
  "jsonHeaders = [(''Content-Type'', ''application/json'')]"

definition listRequest :: request where
  "listRequest =
     \<lparr>url = ''http://localhost:8000/codeblocks'', headers = jsonHeaders,
      req_method = None, req_body = None\<rparr>"

definition createRequest :: "blockData \<Rightarrow> request" where
  "createRequest bd =
     \<lparr>url = ''http://localhost:8000/codeblocks'', headers = jsonHeaders,
      req_method = Some ''POST'', req_body = Some bd\<rparr>"

definition updateRequest :: "js_id \<Rightarrow> blockData \<Rightarrow> request" where
  "updateRequest i bd =
     \<lparr>url = ''http://localhost:8000/codeblocks/'' @ idToString i, headers = jsonHeaders,
      req_method = Some ''PUT'', req_body = Some bd\<rparr>"

definition deleteRequest :: "js_id \<Rightarrow> request" where
  "deleteRequest i =
     \<lparr>url = ''http://localhost:8000/codeblocks/'' @ idToString i, headers = jsonHeaders,
      req_method = Some ''DELETE'', req_body = None\<rparr>"

text \<open>How a request settles, read off what \<^verbatim>\<open>fetch\<close> answers: it succeeds when the
  answer has a status from 200 to 299 and a body that is a JSON text.\<close>

definition settles :: "'a fetch_result \<Rightarrow> js_error + 'a" where
  "settles fr =
     (case fr of
        NetworkFailure \<Rightarrow> Inl FetchError
      | Response r \<Rightarrow>
          if 200 \<le> status r \<and> status r \<le> 299 then
            (case body r of
               JsonBody v \<Rightarrow> Inr v
             | EmptyBody \<Rightarrow> Inl SyntaxError
             | MalformedBody \<Rightarrow> Inl SyntaxError)
          else Inl (HttpError (status r)))"

definition succeeds :: "'a fetch_result \<Rightarrow> bool" where
  "succeeds fr =
     (case fr of
        NetworkFailure \<Rightarrow> False
      | Response r \<Rightarrow>
          200 \<le> status r \<and> status r \<le> 299
          \<and> (case body r of JsonBody v \<Rightarrow> True | EmptyBody \<Rightarrow> False | MalformedBody \<Rightarrow> False))"

text \<open>The alert of \<^verbatim>\<open>loadCodeBlocks\<close>.\<close>

definition loadFailedMessage :: string where
  "loadFailedMessage = ''Failed to load code blocks. Make sure the backend server is running.''"

text \<open>An action that was aborted after its one request \<open>req\<close>: the block list, the
  selection and the page are as before, one alert \<open>msg\<close> was raised and no further
  request was issued. Only the developer console differs besides.\<close>

definition aborted_with :: "string \<Rightarrow> request \<Rightarrow> state \<Rightarrow> state \<Rightarrow> bool" where
  "aborted_with msg req s s' =
     (codeBlocks s' = codeBlocks s \<and> currentBlockId s' = currentBlockId s
      \<and> isEditMode s' = isEditMode s
      \<and> blocksList s' = blocksList s \<and> codeViewer s' = codeViewer s
      \<and> currentExplanationPopup s' = currentExplanationPopup s
      \<and> searchInput_value s' = searchInput_value s
      \<and> categoryFilter_options s' = categoryFilter_options s
      \<and> categoryFilter_value s' = categoryFilter_value s
      \<and> modal_display s' = modal_display s
      \<and> editingId s' = editingId s
      \<and> alerts s' = alerts s @ [msg]
      \<and> requests s' = requests s @ [req]
      \<and> outsideModel s' = outsideModel s)"

text \<open>The lines of a block's code, and the line elements the viewer shows.\<close>

definition codeLinesOf :: "block \<Rightarrow> string list" where
  "codeLinesOf b = split CHR 0x0A (code b)"






text \<open>The text last assigned to the \<^verbatim>\<open>innerHTML\<close> of the viewer by one of the two
  views.\<close>

definition viewerHTML :: "viewer \<Rightarrow> string option" where
  "viewerHTML v =
     (case v of
        ReadView rv \<Rightarrow> Some (readViewHTML rv)
      | EditView ev \<Rightarrow> Some (editViewHTML ev)
      | Markup t \<Rightarrow> Some t
      | _ \<Rightarrow> None)"

text \<open>What a browser shows for a text that \<^verbatim>\<open>escapeHtml\<close> wrote: the text with each of
  the four character references \<^verbatim>\<open>escapeHtml\<close> writes replaced by its character.\<close>

fun decodeText :: "string \<Rightarrow> string" where
  "decodeText [] = []"
| "decodeText (c # r) =
     (if startsWith (c # r) ''&amp;'' then CHR ''&'' # decodeText (drop 4 r)
      else if startsWith (c # r) ''&lt;'' then CHR ''<'' # decodeText (drop 3 r)
      else if startsWith (c # r) ''&gt;'' then CHR ''>'' # decodeText (drop 3 r)
      else if startsWith (c # r) ''&nbsp;'' then CHR 0xA0 # decodeText (drop 5 r)
      else c # decodeText r)"

text \<open>Sample data: two blocks, a block whose only line explanation is the empty string,
  a block with markup in its fields, a block whose title opens a comment, networks and
  states built from them, and two forms of the modal.\<close>

definition sampleHello :: block where
  "sampleHello =
     \<lparr>block_id = 1, title = ''Hello'', category = ''basics'', code = ''print(1)'',
      explanation = ''prints'', lineExplanations = Some [(1, ''prints hi'')]\<rparr>"

definition sampleSort :: block where
  "sampleSort =
     \<lparr>block_id = 2, title = ''Sort'', category = ''Algo'', code = ''x'', explanation = ''E'',
      lineExplanations = None\<rparr>"


definition markupBlock :: block where
  "markupBlock =
     \<lparr>block_id = 4, title = ''<b>T</b>'', category = ''basics'', code = ''a<b'',
      explanation = ''<i>E</i>'', lineExplanations = Some [(1, ''<u>x</u>'')]\<rparr>"


definition net500 :: "unit network" where
  "net500 =
     \<lparr>fetch_blocks = (\<lambda>req. Response \<lparr>status = 500, body = EmptyBody\<rparr>),
      fetch_value = (\<lambda>req. Response \<lparr>status = 500, body = EmptyBody\<rparr>)\<rparr>"





definition selectedState :: state where
  "selectedState = initialState\<lparr>codeBlocks := [sampleHello, sampleSort], currentBlockId := Num 1\<rparr>"



definition sampleForm :: modal_form where
  "sampleForm = \<lparr>form_title = ''T'', form_category = ''C'', form_code = ''x'',
     form_explanation = ''E'', form_lineExplanations = []\<rparr>"


section \<open>Properties of the string functions\<close>

lemma split_not_Nil: "split c s \<noteq> []"
  by (induction s) (auto split: list.splits)

lemma hd_split: "hd (split c s) = takeWhile (\<lambda>x. x \<noteq> c) s"
  by (induction s) (auto split: list.splits simp: split_not_Nil)

lemma join_split: "join [c] (split c s) = s"
proof (induction s)
  case Nil
  show ?case by simp
next
  case (Cons x xs)
  obtain w ws where sp: "split c xs = w # ws"
    using split_not_Nil by (cases "split c xs") auto
  show ?case
  proof (cases "x = c")
    case True
    with Cons sp show ?thesis by simp
  next
    case False
    with Cons sp show ?thesis by (cases ws) auto
  qed
qed

lemma tl_split: "c \<in> set s \<Longrightarrow> join [c] (tl (split c s)) = tl (dropWhile (\<lambda>x. x \<noteq> c) s)"
proof (induction s)
  case Nil
  then show ?case by simp
next
  case (Cons x xs)
  obtain w ws where sp: "split c xs = w # ws"
    using split_not_Nil by (cases "split c xs") auto
  show ?case
  proof (cases "x = c")
    case True
    then show ?thesis using join_split[of c xs] by simp
  next
    case False
    with Cons sp show ?thesis by auto
  qed
qed

lemma length_split_ge2: "(2 \<le> length (split c s)) = (c \<in> set s)"
proof (induction s)
  case Nil
  show ?case by simp
next
  case (Cons x xs)
  obtain w ws where sp: "split c xs = w # ws"
    using split_not_Nil by (cases "split c xs") auto
  show ?case using Cons sp by auto
qed

text \<open>What the body of the parser's loop does with one line: nothing when the line has
  no colon; otherwise it reads the line number from the text before the first colon and
  stores the text after the first colon, both trimmed.\<close>

lemma parseLine_first_colon:
  "parseLine obj line =
     (if CHR '':'' \<in> set line then
        (case parseInt (trim (takeWhile (\<lambda>c. c \<noteq> CHR '':'') line)) of
           None \<Rightarrow> obj
         | Some n \<Rightarrow> obj_set obj n (trim (tl (dropWhile (\<lambda>c. c \<noteq> CHR '':'') line))))
      else obj)"
proof -
  have nth0: "split CHR '':'' line ! 0 = takeWhile (\<lambda>c. c \<noteq> CHR '':'') line"
    using hd_split[of "CHR '':''" line] split_not_Nil[of "CHR '':''" line]
    by (simp add: hd_conv_nth)
  have d1: "drop 1 (split CHR '':'' line) = tl (split CHR '':'' line)"
    by (simp add: drop_Suc)
  show ?thesis
    unfolding parseLine_def Let_def nth0 d1 length_split_ge2
    using tl_split[of "CHR '':''" line] by (simp split: option.splits)
qed

subsection \<open>Numbers and their decimal text\<close>

declare string_of_nat.simps [simp del]

lemma of_char_digit: "d < 10 \<Longrightarrow> (of_char (digit_char d) :: nat) = 48 + d"
  by (simp add: digit_char_def)

lemma isDecimal_digit_char: "d < 10 \<Longrightarrow> isDecimal (digit_char d)"
  by (simp add: isDecimal_def of_char_digit)

lemma digitValue_digit_char: "d < 10 \<Longrightarrow> digitValue (digit_char d) = d"
  by (simp add: digitValue_def of_char_digit)

lemma string_of_nat_decimal: "\<forall>c \<in> set (string_of_nat n). isDecimal c"
proof (induction n rule: string_of_nat.induct)
  case (1 n)
  show ?case
  proof (cases "n < 10")
    case True
    then show ?thesis by (subst string_of_nat.simps) (simp add: isDecimal_digit_char)
  next
    case False
    then show ?thesis using 1 by (subst string_of_nat.simps) (simp add: isDecimal_digit_char)
  qed
qed

lemma string_of_nat_not_Nil: "string_of_nat n \<noteq> []"
  by (subst string_of_nat.simps) simp

lemma string_of_nat_value:
  "foldl (\<lambda>a c. a * 10 + digitValue c) 0 (string_of_nat n) = n"
proof (induction n rule: string_of_nat.induct)
  case (1 n)
  show ?case
  proof (cases "n < 10")
    case True
    then show ?thesis by (subst string_of_nat.simps) (simp add: digitValue_digit_char)
  next
    case False
    then show ?thesis using 1 by (subst string_of_nat.simps) (simp add: digitValue_digit_char)
  qed
qed

lemma isDecimal_facts:
  assumes "isDecimal c"
  shows "\<not> isWhiteSpace c" "c \<noteq> CHR ''-''" "c \<noteq> CHR ''+''" "c \<noteq> CHR ''x''" "c \<noteq> CHR ''X''"
    "c \<noteq> CHR '':''" "c \<noteq> CHR 0x0A" "isRadixDigit 10 c"
  using assms by (auto simp: isDecimal_def isWhiteSpace_def isRadixDigit_def digitValue_def)

lemma parseInt_decimal:
  assumes ne: "ds \<noteq> []" and dec: "\<forall>c \<in> set ds. isDecimal c"
  shows "parseInt ds = Some (int (foldl (\<lambda>a c. a * 10 + digitValue c) 0 ds))"
    and "parseInt (CHR ''-'' # ds) = Some (- int (foldl (\<lambda>a c. a * 10 + digitValue c) 0 ds))"
proof -
  obtain d ds' where ds: "ds = d # ds'" using ne by (cases ds) auto
  have d: "isDecimal d" using dec ds by simp
  have nohex: "\<not> startsWith ds ''0x''" "\<not> startsWith ds ''0X''"
  proof -
    show "\<not> startsWith ds ''0x''"
    proof (cases ds')
      case Nil then show ?thesis using ds by simp
    next
      case (Cons e es)
      then have "isDecimal e" using dec ds by simp
      then show ?thesis using ds Cons isDecimal_facts(4)[of e] by auto
    qed
    show "\<not> startsWith ds ''0X''"
    proof (cases ds')
      case Nil then show ?thesis using ds by simp
    next
      case (Cons e es)
      then have "isDecimal e" using dec ds by simp
      then show ?thesis using ds Cons isDecimal_facts(5)[of e] by auto
    qed
  qed
  have tw: "takeWhile (isRadixDigit 10) ds = ds"
    using dec by (simp add: isDecimal_facts(8))
  have ts: "trimStart ds = ds"
    using ds isDecimal_facts(1)[OF d] by (simp add: trimStart_def)
  have tsm: "trimStart (CHR ''-'' # ds) = CHR ''-'' # ds"
    by (simp add: trimStart_def isWhiteSpace_def)
  have hd: "hd ds \<noteq> CHR ''-''" "hd ds \<noteq> CHR ''+''"
    using ds isDecimal_facts(2,3)[OF d] by simp_all
  show "parseInt ds = Some (int (foldl (\<lambda>a c. a * 10 + digitValue c) 0 ds))"
    using ne hd nohex by (simp add: parseInt_def Let_def ts tw)
  show "parseInt (CHR ''-'' # ds) = Some (- int (foldl (\<lambda>a c. a * 10 + digitValue c) 0 ds))"
    using ne nohex by (simp add: parseInt_def Let_def tsm tw)
qed

lemma parseInt_numberToString: "parseInt (numberToString n) = Some n"
proof (cases "n < 0")
  case True
  then show ?thesis
    using parseInt_decimal(2)[OF string_of_nat_not_Nil string_of_nat_decimal, of "nat (- n)"]
    by (simp add: numberToString_def string_of_nat_value)
next
  case False
  then show ?thesis
    using parseInt_decimal(1)[OF string_of_nat_not_Nil string_of_nat_decimal, of "nat n"]
    by (simp add: numberToString_def string_of_nat_value)
qed

lemma numberToString_chars: "\<forall>c \<in> set (numberToString n). isNumberChar c"
  using string_of_nat_decimal by (auto simp: numberToString_def isNumberChar_def)

lemma numberToString_not_Nil: "numberToString n \<noteq> []"
  by (simp add: numberToString_def string_of_nat_not_Nil)

lemma isNumberChar_facts:
  assumes "isNumberChar c"
  shows "\<not> isWhiteSpace c" "c \<noteq> CHR '':''" "c \<noteq> CHR 0x0A"
proof -
  have c: "isDecimal c \<or> c = CHR ''-''" using assms by (simp add: isNumberChar_def)
  from c show "\<not> isWhiteSpace c"
    using isDecimal_facts(1)[of c] by (auto simp: isWhiteSpace_def)
  from c show "c \<noteq> CHR '':''"
    using isDecimal_facts(6)[of c] by auto
  from c show "c \<noteq> CHR 0x0A"
    using isDecimal_facts(7)[of c] by auto
qed

subsection \<open>Trimming, splitting and formatting\<close>

lemma mem_dropWhile: "x \<in> set s \<Longrightarrow> \<not> P x \<Longrightarrow> x \<in> set (dropWhile P s)"
  by (induction s) auto

lemma dropWhile_none: "\<forall>x \<in> set xs. \<not> P x \<Longrightarrow> dropWhile P xs = xs"
  by (cases xs) auto

lemma trim_not_Nil: "x \<in> set s \<Longrightarrow> \<not> isWhiteSpace x \<Longrightarrow> trim s \<noteq> []"
proof -
  assume a: "x \<in> set s" "\<not> isWhiteSpace x"
  then have "x \<in> set (trimStart s)" by (simp add: trimStart_def mem_dropWhile)
  then have "x \<in> set (rev (trimStart s))" by simp
  then have "x \<in> set (dropWhile isWhiteSpace (rev (trimStart s)))"
    using a(2) by (rule mem_dropWhile)
  then have "dropWhile isWhiteSpace (rev (trimStart s)) \<noteq> []"
    by (metis empty_iff empty_set)
  then show ?thesis by (simp add: trim_def trimEnd_def)
qed

lemma trim_id: "\<forall>c \<in> set s. \<not> isWhiteSpace c \<Longrightarrow> trim s = s"
proof -
  assume a: "\<forall>c \<in> set s. \<not> isWhiteSpace c"
  have 1: "dropWhile isWhiteSpace s = s" using a by (rule dropWhile_none)
  have "\<forall>c \<in> set (rev s). \<not> isWhiteSpace c" using a by simp
  then have 2: "dropWhile isWhiteSpace (rev s) = rev s" by (rule dropWhile_none)
  show ?thesis by (simp add: trim_def trimStart_def trimEnd_def 1 2)
qed

lemma split_no_sep: "c \<notin> set l \<Longrightarrow> split c l = [l]"
  by (induction l) auto

lemma split_append_sep: "c \<notin> set l \<Longrightarrow> split c (l @ c # r) = l # split c r"
  by (induction l) auto

lemma split_join:
  "ls \<noteq> [] \<Longrightarrow> \<forall>l \<in> set ls. c \<notin> set l \<Longrightarrow> split c (join [c] ls) = ls"
proof (induction ls)
  case Nil
  then show ?case by simp
next
  case (Cons l ls)
  show ?case
  proof (cases ls)
    case Nil
    then show ?thesis using Cons.prems by (simp add: split_no_sep)
  next
    case (Cons y ys)
    then have "split c (join [c] ls) = ls" using Cons.IH Cons.prems by simp
    then show ?thesis using Cons Cons.prems by (simp add: split_append_sep)
  qed
qed

lemma takeWhile_number:
  "takeWhile (\<lambda>c. c \<noteq> CHR '':'') (numberToString k @ CHR '':'' # v) = numberToString k"
  using numberToString_chars[of k] isNumberChar_facts(2)
  by simp

lemma dropWhile_number:
  "dropWhile (\<lambda>c. c \<noteq> CHR '':'') (numberToString k @ CHR '':'' # v) = CHR '':'' # v"
  using numberToString_chars[of k] isNumberChar_facts(2)
  by simp

lemma trim_numberToString: "trim (numberToString k) = numberToString k"
  using numberToString_chars[of k] isNumberChar_facts(1) by (intro trim_id) blast

lemma parseLine_formatEntry:
  "parseLine obj (formatEntry (k, v)) = obj_set obj k (trim v)"
  unfolding parseLine_first_colon formatEntry_def
  by (simp add: takeWhile_number dropWhile_number trim_numberToString parseInt_numberToString)

lemma formatEntry_no_newline:
  "CHR 0x0A \<notin> set v \<Longrightarrow> CHR 0x0A \<notin> set (formatEntry (k, v))"
  using numberToString_chars[of k] isNumberChar_facts(3) by (auto simp: formatEntry_def)

lemma formatEntry_has_nonspace:
  "\<exists>x \<in> set (formatEntry (k, v)). \<not> isWhiteSpace x"
  by (auto simp: formatEntry_def isWhiteSpace_def)

lemma obj_set_append:
  "k \<notin> fst ` set acc \<Longrightarrow> (isArrayIndex k \<Longrightarrow> \<forall>k' \<in> fst ` set acc. isArrayIndex k' \<and> k' < k)
   \<Longrightarrow> obj_set acc k v = acc @ [(k, v)]"
  by (induction acc) (auto)

lemma entries_ordered_append:
  "entries_ordered (acc @ [(k, v)]) \<Longrightarrow> isArrayIndex k \<Longrightarrow> \<forall>k' \<in> fst ` set acc. isArrayIndex k' \<and> k' < k"
proof (induction acc rule: entries_ordered.induct)
  case 1
  then show ?case by simp
next
  case (2 p)
  then show ?case by simp
next
  case (3 p q ps)
  then show ?case by (auto)
qed

lemma entries_ordered_prefix:
  "entries_ordered (acc @ rest) \<Longrightarrow> entries_ordered acc"
proof (induction acc rule: entries_ordered.induct)
  case 1
  then show ?case by simp
next
  case (2 p)
  then show ?case by simp
next
  case (3 p q ps)
  then show ?case by simp
qed

subsection \<open>Parsing what the formatter wrote, and the keys of a parsed object\<close>

lemma foldl_parseLine_format:
  "distinct (map fst (acc @ rest)) \<Longrightarrow> entries_ordered (acc @ rest)
   \<Longrightarrow> \<forall>p \<in> set rest. trim (snd p) = snd p
   \<Longrightarrow> foldl parseLine acc (map formatEntry rest) = acc @ rest"
proof (induction rest arbitrary: acc)
  case Nil
  show ?case by simp
next
  case (Cons p rest)
  obtain k v where p: "p = (k, v)" by (cases p)
  have tv: "trim v = v" using Cons.prems(3) p by simp
  have eq: "acc @ p # rest = (acc @ [(k, v)]) @ rest" using p by simp
  have ord: "entries_ordered (acc @ [(k, v)])"
    using Cons.prems(2) unfolding eq by (rule entries_ordered_prefix)
  have fresh: "k \<notin> fst ` set acc" using Cons.prems(1) p by auto
  have step: "parseLine acc (formatEntry p) = acc @ [(k, v)]"
    unfolding p parseLine_formatEntry tv
    using fresh entries_ordered_append[OF ord] by (intro obj_set_append) auto
  have "foldl parseLine (acc @ [(k, v)]) (map formatEntry rest) = (acc @ [(k, v)]) @ rest"
    using Cons.prems unfolding eq by (intro Cons.IH) auto
  then show ?case using step p by simp
qed

lemma set_join_first: "set l \<subseteq> set (join sep (l # ls))"
  by (cases ls) auto

lemma format_roundtrip:
  assumes wf: "wellFormedObject obj"
    and nl: "\<forall>p \<in> set obj. CHR 0x0A \<notin> set (snd p)"
    and tr: "\<forall>p \<in> set obj. trim (snd p) = snd p"
  shows "parseLineExplanations (formatLineExplanationsForEdit (Some obj)) = obj"
proof (cases obj)
  case Nil
  then show ?thesis
    by (simp add: parseLineExplanations_def formatLineExplanationsForEdit_def Object_entries_def
        trim_def trimStart_def trimEnd_def)
next
  case (Cons p ps)
  obtain k v where p: "p = (k, v)" by (cases p)
  let ?ls = "map formatEntry obj"
  have ne: "?ls \<noteq> []" using Cons by simp
  have nonl: "\<forall>l \<in> set ?ls. CHR 0x0A \<notin> set l"
    using nl formatEntry_no_newline by force
  have sp: "split CHR 0x0A (join [CHR 0x0A] ?ls) = ?ls"
    using ne nonl by (rule split_join)
  obtain x where x: "x \<in> set (formatEntry p)" "\<not> isWhiteSpace x"
    using formatEntry_has_nonspace[of k v] p by auto
  have "x \<in> set (join [CHR 0x0A] ?ls)"
    using x(1) set_join_first[of "formatEntry p" "[CHR 0x0A]" "map formatEntry ps"] Cons by auto
  then have nonblank: "trim (join [CHR 0x0A] ?ls) \<noteq> []"
    using x(2) by (rule trim_not_Nil)
  have "foldl parseLine [] ?ls = [] @ obj"
    using wf tr by (intro foldl_parseLine_format) (simp_all add: wellFormedObject_def)
  then show ?thesis
    by (simp add: parseLineExplanations_def formatLineExplanationsForEdit_def Object_entries_def
        nonblank sp del: split.simps)
qed

lemma keys_obj_set: "fst ` set (obj_set obj k v) = insert k (fst ` set obj)"
proof (induction obj)
  case Nil
  show ?case by simp
next
  case (Cons p obj)
  obtain k' v' where p: "p = (k', v')" by (cases p)
  show ?case using Cons unfolding p by (simp add: insert_commute)
qed

lemma keys_parseLine:
  "fst ` set (parseLine obj line) \<subseteq> fst ` set obj \<union> {k. lineNumberOf line = Some k}"
  unfolding parseLine_first_colon lineNumberOf_def
  by (auto simp: keys_obj_set split: option.splits)

lemma keys_foldl_parseLine:
  "fst ` set (foldl parseLine obj ls) \<subseteq> fst ` set obj \<union> {k. \<exists>line \<in> set ls. lineNumberOf line = Some k}"
proof (induction ls arbitrary: obj)
  case Nil
  show ?case by simp
next
  case (Cons l ls)
  show ?case using Cons.IH[of "parseLine obj l"] keys_parseLine[of obj l] by auto
qed

lemma keys_parseLineExplanations:
  "k \<in> fst ` set (parseLineExplanations t) \<Longrightarrow> \<exists>line \<in> set (split CHR 0x0A t). lineNumberOf line = Some k"
  using keys_foldl_parseLine[of "[]" "split CHR 0x0A t"]
  by (auto simp: parseLineExplanations_def split: if_splits)

text \<open>Every object the parser builds is a well-formed object.\<close>

lemma entries_ordered_Cons:
  "entries_ordered (p # ps) =
     ((case ps of [] \<Rightarrow> True
       | q # qs \<Rightarrow> (isArrayIndex (fst q) \<longrightarrow> isArrayIndex (fst p) \<and> fst p < fst q))
      \<and> entries_ordered ps)"
  by (cases ps) auto

lemma entries_ordered_later:
  "entries_ordered (p # ps) \<Longrightarrow> q \<in> set ps \<Longrightarrow> isArrayIndex (fst q)
   \<Longrightarrow> isArrayIndex (fst p) \<and> fst p < fst q"
proof (induction ps arbitrary: p)
  case Nil
  then show ?case by simp
next
  case (Cons r rs)
  show ?case
  proof (cases "q = r")
    case True
    then show ?thesis using Cons.prems by simp
  next
    case False
    then have "q \<in> set rs" using Cons.prems by simp
    then have r: "isArrayIndex (fst r) \<and> fst r < fst q"
      using Cons.IH[of r] Cons.prems by simp
    then show ?thesis using Cons.prems(1) by auto
  qed
qed

lemma obj_set_head:
  "obj_set ps k v = q # qs \<Longrightarrow> fst q = k \<or> (\<exists>r rs. ps = r # rs \<and> fst r = fst q)"
  by (cases ps) (auto split: if_splits)

lemma wellFormedObject_obj_set:
  "wellFormedObject obj \<Longrightarrow> wellFormedObject (obj_set obj k v)"
proof (induction obj)
  case Nil
  show ?case by (simp add: wellFormedObject_def)
next
  case (Cons p ps)
  obtain k' v' where p: "p = (k', v')" by (cases p)
  have wfps: "wellFormedObject ps"
    using Cons.prems by (auto simp: wellFormedObject_def entries_ordered_Cons)
  have ord: "entries_ordered ((k', v') # ps)" and dist: "k' \<notin> fst ` set ps" "distinct (map fst ps)"
    using Cons.prems p by (auto simp: wellFormedObject_def)
  consider (same) "k' = k"
    | (front) "k' \<noteq> k" "isArrayIndex k \<and> (\<not> isArrayIndex k' \<or> k < k')"
    | (rest) "k' \<noteq> k" "\<not> (isArrayIndex k \<and> (\<not> isArrayIndex k' \<or> k < k'))"
    by blast
  then show ?case
  proof cases
    case same
    then show ?thesis
      using Cons.prems p by (cases ps) (auto simp: wellFormedObject_def)
  next
    case front
    have "k \<notin> fst ` set ps"
    proof
      assume "k \<in> fst ` set ps"
      then obtain q where q: "q \<in> set ps" "fst q = k" by auto
      then have "isArrayIndex k' \<and> k' < k"
        using entries_ordered_later[OF ord q(1)] front by simp
      then show False using front by auto
    qed
    then show ?thesis
      using front ord dist p by (simp add: wellFormedObject_def)
  next
    case rest
    have ih: "wellFormedObject (obj_set ps k v)" using Cons.IH wfps by simp
    have keys: "fst ` set (obj_set ps k v) = insert k (fst ` set ps)" by (rule keys_obj_set)
    have d: "distinct (map fst ((k', v') # obj_set ps k v))"
      using ih keys dist rest by (simp add: wellFormedObject_def)
    have o: "entries_ordered ((k', v') # obj_set ps k v)"
    proof (cases "obj_set ps k v")
      case Nil
      then show ?thesis by simp
    next
      case (Cons q qs)
      have oq: "entries_ordered (q # qs)" using ih Cons by (simp add: wellFormedObject_def)
      have "isArrayIndex (fst q) \<longrightarrow> isArrayIndex k' \<and> k' < fst q"
      proof
        assume iq: "isArrayIndex (fst q)"
        from obj_set_head[OF Cons] show "isArrayIndex k' \<and> k' < fst q"
        proof
          assume "fst q = k"
          then show ?thesis using iq rest by auto
        next
          assume "\<exists>r rs. ps = r # rs \<and> fst r = fst q"
          then obtain r rs where "ps = r # rs" "fst r = fst q" by blast
          then show ?thesis using ord iq by simp
        qed
      qed
      then show ?thesis using Cons oq by simp
    qed
    show ?thesis using rest p d o by (simp add: wellFormedObject_def)
  qed
qed

lemma wellFormedObject_parseLine: "wellFormedObject obj \<Longrightarrow> wellFormedObject (parseLine obj line)"
  unfolding parseLine_first_colon by (simp add: wellFormedObject_obj_set split: option.splits)

lemma wellFormedObject_foldl_parseLine:
  "wellFormedObject obj \<Longrightarrow> wellFormedObject (foldl parseLine obj ls)"
  by (induction ls arbitrary: obj) (simp_all add: wellFormedObject_parseLine)

lemma wellFormedObject_parseLineExplanations: "wellFormedObject (parseLineExplanations t)"
proof -
  have e: "wellFormedObject []" by (simp add: wellFormedObject_def)
  show ?thesis
    unfolding parseLineExplanations_def
    using e wellFormedObject_foldl_parseLine[OF e] by simp
qed

section \<open>The line-explanation parser\<close>



text \<open>
  C8, as the code has it. Take any text of the textarea in which every line number that
  is read (the number \<^verbatim>\<open>parseInt\<close> gives on the trimmed text before the first colon of
  a line) is a safe integer. The mapping either parser builds from it has only integer
  keys, each of them such a line number of some line of the text, and so a safe integer.
  The keys need not be positive: zero and negative line numbers are stored like any
  other.
\<close>

theorem parsed_keys_are_read_by_parseInt:
  assumes "\<forall>line \<in> set (split CHR 0x0A t). \<forall>n. lineNumberOf line = Some n \<longrightarrow> safeInteger n"
  shows "(\<forall>k \<in> fst ` set (parseLineExplanations t).
            safeInteger k \<and> (\<exists>line \<in> set (split CHR 0x0A t). lineNumberOf line = Some k))
   \<and> data_lineExplanations (saveEdit_data newCode newExplanation t) = parseLineExplanations t
   \<and> data_lineExplanations (saveCodeBlock_data (f\<lparr>form_lineExplanations := t\<rparr>))
       = parseLineExplanations t"
proof -
  have "safeInteger k \<and> (\<exists>line \<in> set (split CHR 0x0A t). lineNumberOf line = Some k)"
    if "k \<in> fst ` set (parseLineExplanations t)" for k
  proof -
    from keys_parseLineExplanations[OF that]
    obtain line where l: "line \<in> set (split CHR 0x0A t)" "lineNumberOf line = Some k"
      by (elim bexE)
    have "safeInteger k" using assms[rule_format, OF l] .
    moreover have "\<exists>line \<in> set (split CHR 0x0A t). lineNumberOf line = Some k"
      using l by (intro bexI[of _ line])
    ultimately show ?thesis by (intro conjI)
  qed
  then have 1: "\<forall>k \<in> fst ` set (parseLineExplanations t).
            safeInteger k \<and> (\<exists>line \<in> set (split CHR 0x0A t). lineNumberOf line = Some k)"
    by (intro ballI)
  have 2: "data_lineExplanations (saveEdit_data newCode newExplanation t) = parseLineExplanations t"
    by (simp add: saveEdit_data_def)
  have 3: "data_lineExplanations (saveCodeBlock_data (f\<lparr>form_lineExplanations := t\<rparr>))
       = parseLineExplanations t"
    by (simp add: saveCodeBlock_data_def)
  from 1 2 3 show ?thesis by (intro conjI)
qed

theorem parsed_keys_are_read_by_parseInt_witness:
  "map fst (parseLineExplanations ''7:seven\<newline>x'') = [7] \<and> safeInteger 7
   \<and> (\<exists>line \<in> set (split CHR 0x0A ''7:seven\<newline>x''). lineNumberOf line = Some 7)"
proof -
  have s: "split CHR 0x0A ''7:seven\<newline>x'' = [''7:seven'', ''x'']" by code_simp
  have l1: "lineNumberOf ''7:seven'' = Some 7" by code_simp
  have l2: "lineNumberOf ''x'' = None" by code_simp
  have h: "\<forall>line \<in> set (split CHR 0x0A ''7:seven\<newline>x'').
             \<forall>n. lineNumberOf line = Some n \<longrightarrow> safeInteger n"
    unfolding s by (simp add: l1 l2 safeInteger_def)
  have k: "parseLineExplanations ''7:seven\<newline>x'' = [(7, ''seven'')]" by code_simp
  note t = conjunct1 [OF parsed_keys_are_read_by_parseInt [OF h]]
  have m: "(7::int) \<in> fst ` set [(7, ''seven'')]" by simp
  have 1: "safeInteger 7
           \<and> (\<exists>line \<in> set (split CHR 0x0A ''7:seven\<newline>x''). lineNumberOf line = Some 7)"
    using t[unfolded k, rule_format, OF m] .
  have 2: "map fst (parseLineExplanations ''7:seven\<newline>x'') = [7]" unfolding k by simp
  from 2 1 show ?thesis by (intro conjI) (elim conjE, assumption)+
qed

text \<open>The text \<open>0:zero\<close>, \<open>-3:minus\<close> on two lines parses to a mapping whose keys are 0
  and -3, neither of them positive.\<close>

theorem parsed_keys_not_positive:
  "map fst (parseLineExplanations ''0:zero\<newline>-3:minus'') = [0, - 3]"
  by code_simp

section \<open>Formatting and parsing again\<close>

text \<open>
  C4, as the code has it. For every \<^verbatim>\<open>lineExplanations\<close> object whose keys are safe
  integers and whose explanation texts contain no newline and have no white space at
  either end, formatting it to one \<open>n:text\<close> line per entry and parsing that text again
  gives the object back, with its entries in the same order.
\<close>

theorem format_parse_roundtrip:
  assumes "wellFormedObject obj"
    and "\<forall>p \<in> set obj. safeInteger (fst p) \<and> CHR 0x0A \<notin> set (snd p) \<and> trim (snd p) = snd p"
  shows "parseLineExplanations (formatLineExplanationsForEdit (Some obj)) = obj"
  using assms by (intro format_roundtrip) auto

theorem format_parse_roundtrip_witness:
  "parseLineExplanations
     (formatLineExplanationsForEdit (Some [(1, ''import os''), (3, ''a: b''), (- 2, [])]))
   = [(1, ''import os''), (3, ''a: b''), (- 2, [])]"
proof (rule format_parse_roundtrip)
  show "wellFormedObject [(1, ''import os''), (3, ''a: b''), (- 2, [])]"
    by code_simp
  show "\<forall>p \<in> set [(1::int, ''import os''), (3, ''a: b''), (- 2, [])].
          safeInteger (fst p) \<and> CHR 0x0A \<notin> set (snd p) \<and> trim (snd p) = snd p"
    by code_simp
qed

text \<open>An explanation that starts with a space and holds no newline does not come back:
  the parser trims it.\<close>

theorem format_parse_loses_outer_space:
  "wellFormedObject [(1, '' a'')] \<and> safeInteger 1 \<and> CHR 0x0A \<notin> set '' a''
   \<and> parseLineExplanations (formatLineExplanationsForEdit (Some [(1, '' a'')])) = [(1, ''a'')]
   \<and> parseLineExplanations (formatLineExplanationsForEdit (Some [(1, '' a'')])) \<noteq> [(1, '' a'')]"
  by code_simp

section \<open>The sidebar filter\<close>

lemma startsWith_iff: "startsWith t s = (\<exists>r. t = s @ r)"
  by (induction t s rule: startsWith.induct) auto

lemma includes_str_iff: "includes_str t s = (\<exists>p r. t = p @ s @ r)"
proof (induction t)
  case Nil
  show ?case by auto
next
  case (Cons x xs)
  show ?case
  proof
    assume "includes_str (x # xs) s"
    then consider "startsWith (x # xs) s" | "includes_str xs s" by auto
    then show "\<exists>p r. x # xs = p @ s @ r"
    proof cases
      case 1
      then obtain r where "x # xs = s @ r" unfolding startsWith_iff by blast
      then have "x # xs = [] @ s @ r" by simp
      then show ?thesis by blast
    next
      case 2
      then obtain p r where "xs = p @ s @ r" using Cons by blast
      then have "x # xs = (x # p) @ s @ r" by simp
      then show ?thesis by blast
    qed
  next
    assume "\<exists>p r. x # xs = p @ s @ r"
    then obtain p r where pr: "x # xs = p @ s @ r" by blast
    show "includes_str (x # xs) s"
    proof (cases p)
      case Nil
      then have "startsWith (x # xs) s" using pr startsWith_iff by auto
      then show ?thesis by simp
    next
      case (Cons y ys)
      then have "xs = ys @ s @ r" using pr by simp
      then have "includes_str xs s" using Cons.IH by blast
      then show ?thesis by simp
    qed
  qed
qed

lemma matches_spec_visible:
  "(matchesSearch (toLowerCase s) b \<and> matchesCategory c b) = spec_visible s c b"
  by (simp add: matchesSearch_def matchesCategory_def spec_visible_def
      spec_containsIgnoringCase_def includes_str_iff)

lemma startsWith_append_same: "startsWith (a @ r) (a @ s) = startsWith r s"
  by (induction a) auto

lemma startsWith_self: "startsWith (a @ r) a"
  using startsWith_append_same[of a r "[]"] by simp

lemma includes_str_skip: "includes_str t s \<Longrightarrow> includes_str (a @ t) s"
  by (induction a) auto

lemma includes_str_prefix: "includes_str (a @ r) a"
proof -
  have "a @ r = [] @ a @ r" by simp
  then show ?thesis unfolding includes_str_iff by (intro exI)
qed

lemma includes_blockElementHTML_title:
  \<open>includes_str (blockElementHTML it) (''<div class="block-title">'' @ item_titleHTML it @ ''</div>'')\<close>
  unfolding blockElementHTML_def
  apply (rule includes_str_skip)
  apply (simp add: startsWith_append_same)
  done

lemma includes_blockElementHTML_meta:
  \<open>includes_str (blockElementHTML it) (''<div class="block-meta">'' @ item_metaHTML it @ ''</div>'')\<close>
  unfolding blockElementHTML_def
  apply (rule includes_str_skip, rule includes_str_skip, rule includes_str_skip, rule includes_str_skip)
  apply (simp add: startsWith_append_same)
  done

text \<open>
  C3. For every search string, every selected category and every block list, the
  rendered sidebar list holds exactly the blocks whose title or category contains the
  search string, case ignored, and whose category is the selected one when one is
  selected, in the order of the block list: one entry for each, which shows the block's
  title and category, written between the tags of their elements, opens the block with
  that id when clicked, and is marked active when the block is the selected one. When no
  block is such, the placeholder message is rendered instead of a list.
\<close>

theorem sidebar_shows_matching_blocks:
  \<open>renderBlocksList s =
     (let visible = filter (spec_visible (searchInput_value s) (categoryFilter_value s))
                      (codeBlocks s)
      in if visible = [] then s\<lparr>blocksList := NoBlocksMessage\<rparr>
         else s\<lparr>blocksList :=
                  BlockItems
                    (map (\<lambda>b. \<lparr>item_active = Some (strict_eq (currentBlockId s) (Num (block_id b))),
                              item_titleHTML = title b,
                              item_metaHTML = category b,
                              item_blockId = block_id b\<rparr>) visible),
                outsideModel :=
                  (outsideModel s
                   \<or> \<not> list_all (\<lambda>b. tagFree (title b) \<and> tagFree (category b)) visible)\<rparr>)
   \<and> includes_str (blockElementHTML it) (''<div class="block-title">'' @ item_titleHTML it @ ''</div>'')
   \<and> includes_str (blockElementHTML it) (''<div class="block-meta">'' @ item_metaHTML it @ ''</div>'')\<close>
proof -
  let ?vis = "spec_visible (searchInput_value s) (categoryFilter_value s)"
  have f: "filter (\<lambda>b. matchesSearch (toLowerCase (searchInput_value s)) b
                        \<and> matchesCategory (categoryFilter_value s) b) (codeBlocks s)
           = filter ?vis (codeBlocks s)"
    by (simp add: matches_spec_visible)
  have b: "blockElement (currentBlockId s)
           = (\<lambda>b. \<lparr>item_active = Some (strict_eq (currentBlockId s) (Num (block_id b))),
                   item_titleHTML = title b, item_metaHTML = category b,
                   item_blockId = block_id b\<rparr>)"
    by (rule ext) (simp add: blockElement_def)
  have r: "renderBlocksList s =
     (let visible = filter ?vis (codeBlocks s)
      in if visible = [] then s\<lparr>blocksList := NoBlocksMessage\<rparr>
         else s\<lparr>blocksList :=
                  BlockItems
                    (map (\<lambda>b. \<lparr>item_active = Some (strict_eq (currentBlockId s) (Num (block_id b))),
                              item_titleHTML = title b,
                              item_metaHTML = category b,
                              item_blockId = block_id b\<rparr>) visible),
                outsideModel :=
                  (outsideModel s
                   \<or> \<not> list_all (\<lambda>b. tagFree (title b) \<and> tagFree (category b)) visible)\<rparr>)"
    unfolding renderBlocksList_def Let_def f length_0_conv b by simp
  from r includes_blockElementHTML_title[of it] includes_blockElementHTML_meta[of it]
  show ?thesis by (intro conjI)
qed

theorem sidebar_shows_matching_blocks_witness:
  \<open>renderBlocksList (initialState\<lparr>codeBlocks := [sampleHello, sampleSort], searchInput_value := ''aLG''\<rparr>)
   = initialState
       \<lparr>codeBlocks := [sampleHello, sampleSort], searchInput_value := ''aLG'',
        blocksList :=
          BlockItems [\<lparr>item_active = Some False, item_titleHTML = ''Sort'',
                       item_metaHTML = ''Algo'', item_blockId = 2\<rparr>]\<rparr>
   \<and> spec_visible ''aLG'' [] sampleSort \<and> \<not> spec_visible ''aLG'' [] sampleHello
   \<and> includes_str (blockElementHTML (blockElement Null sampleSort)) ''<div class="block-title">Sort</div>''\<close>
proof -
  let ?s = "initialState\<lparr>codeBlocks := [sampleHello, sampleSort], searchInput_value := ''aLG''\<rparr>"
  have v2: "spec_visible ''aLG'' [] sampleSort"
    unfolding matches_spec_visible[symmetric] by code_simp
  have v1: "\<not> spec_visible ''aLG'' [] sampleHello"
    unfolding matches_spec_visible[symmetric] by code_simp
  have i: "item_titleHTML (blockElement Null sampleSort) = ''Sort''"
    by (simp add: blockElement_def sampleSort_def)
  note t = sidebar_shows_matching_blocks [of ?s "blockElement Null sampleSort"]
  have 1: "renderBlocksList ?s
           = ?s\<lparr>blocksList :=
                  BlockItems [\<lparr>item_active = Some False, item_titleHTML = ''Sort'',
                               item_metaHTML = ''Algo'', item_blockId = 2\<rparr>]\<rparr>"
    using conjunct1 [OF t] v1 v2
    by (simp add: initialState_def Let_def sampleSort_def tagFree_def)
  have 2: \<open>includes_str (blockElementHTML (blockElement Null sampleSort)) ''<div class="block-title">Sort</div>''\<close>
    using conjunct1 [OF conjunct2 [OF t]] unfolding i by simp
  show ?thesis using 1 2 v1 v2 by simp
qed

section \<open>Requests and how they settle\<close>

lemma mkRequest_list: "mkRequest ''/codeblocks'' \<lparr>opt_method = None, opt_body = None\<rparr> = listRequest"
  by (simp add: mkRequest_def listRequest_def API_BASE_URL_def jsonHeaders_def)

lemma mkRequest_create:
  "mkRequest ''/codeblocks'' \<lparr>opt_method = Some ''POST'', opt_body = Some bd\<rparr> = createRequest bd"
  by (simp add: mkRequest_def createRequest_def API_BASE_URL_def jsonHeaders_def)

lemma mkRequest_update:
  "mkRequest (''/codeblocks/'' @ idToString i) \<lparr>opt_method = Some ''PUT'', opt_body = Some bd\<rparr>
   = updateRequest i bd"
  by (simp add: mkRequest_def updateRequest_def API_BASE_URL_def jsonHeaders_def)

lemma mkRequest_delete:
  "mkRequest (''/codeblocks/'' @ idToString i) \<lparr>opt_method = Some ''DELETE'', opt_body = None\<rparr>
   = deleteRequest i"
  by (simp add: mkRequest_def deleteRequest_def API_BASE_URL_def jsonHeaders_def)

lemma apiRequest_settles:
  "apiRequest fetch endpoint opts s =
     (case settles (fetch (mkRequest endpoint opts)) of
        Inl e \<Rightarrow>
          (Inl e, s\<lparr>requests := requests s @ [mkRequest endpoint opts],
                    console := console s @ [(''API request failed:'', e)]\<rparr>)
      | Inr v \<Rightarrow> (Inr v, s\<lparr>requests := requests s @ [mkRequest endpoint opts]\<rparr>))"
  by (simp add: apiRequest_def Let_def settles_def response_ok_def response_json_def
      split: fetch_result.splits body.splits)

lemma settles_500: "fr = Response r \<Longrightarrow> status r = 500 \<Longrightarrow> settles fr = Inl (HttpError 500)"
  by (simp add: settles_def)

lemma succeeds_settles: "succeeds fr = (\<exists>v. settles fr = Inr v)"
  by (auto simp: succeeds_def settles_def split: fetch_result.splits body.splits)

lemma not_succeeds_settles: "(\<not> succeeds fr) = (\<exists>e. settles fr = Inl e)"
  by (auto simp: succeeds_def settles_def split: fetch_result.splits body.splits)

lemma loadCodeBlocks_failure:
  "settles (fetch_blocks net listRequest) = Inl e \<Longrightarrow>
   loadCodeBlocks net s =
     (Inr (), s\<lparr>requests := requests s @ [listRequest],
                 console := console s @ [(''API request failed:'', e), (''Failed to load code blocks:'', e)],
                 alerts := alerts s @ [loadFailedMessage]\<rparr>)"
  unfolding loadCodeBlocks_def apiRequest_settles mkRequest_list
  by (simp add: loadFailedMessage_def)

lemma loadCodeBlocks_success:
  "settles (fetch_blocks net listRequest) = Inr blocks \<Longrightarrow>
   loadCodeBlocks net s =
     (Inr (), updateCategoryFilter (renderBlocksList
                (s\<lparr>requests := requests s @ [listRequest], codeBlocks := blocks\<rparr>)))"
  unfolding loadCodeBlocks_def apiRequest_settles mkRequest_list
  by simp

lemma loadCodeBlocks_fulfils: "fst (loadCodeBlocks net s) = Inr ()"
  by (cases "settles (fetch_blocks net listRequest)")
     (simp_all add: loadCodeBlocks_failure loadCodeBlocks_success)

lemma deleteCodeBlock_eq:
  "deleteCodeBlock fetch i s =
     (case settles (fetch (deleteRequest i)) of
        Inl e \<Rightarrow>
          (Inl e, s\<lparr>requests := requests s @ [deleteRequest i],
                    console := console s @ [(''API request failed:'', e)]\<rparr>)
      | Inr v \<Rightarrow> (Inr (), s\<lparr>requests := requests s @ [deleteRequest i]\<rparr>))"
  unfolding deleteCodeBlock_def apiRequest_settles mkRequest_delete
  by (simp split: sum.splits)

lemma updateCodeBlock_eq:
  "updateCodeBlock fetch i bd s =
     (case settles (fetch (updateRequest i bd)) of
        Inl e \<Rightarrow>
          (Inl e, s\<lparr>requests := requests s @ [updateRequest i bd],
                    console := console s @ [(''API request failed:'', e)]\<rparr>)
      | Inr v \<Rightarrow> (Inr v, s\<lparr>requests := requests s @ [updateRequest i bd]\<rparr>))"
  unfolding updateCodeBlock_def apiRequest_settles mkRequest_update
  by (simp split: sum.splits)

lemma createCodeBlock_eq:
  "createCodeBlock fetch bd s =
     (case settles (fetch (createRequest bd)) of
        Inl e \<Rightarrow>
          (Inl e, s\<lparr>requests := requests s @ [createRequest bd],
                    console := console s @ [(''API request failed:'', e)]\<rparr>)
      | Inr v \<Rightarrow> (Inr v, s\<lparr>requests := requests s @ [createRequest bd]\<rparr>))"
  unfolding createCodeBlock_def apiRequest_settles mkRequest_create
  by (simp split: sum.splits)

lemma succeeds_settlesD: "succeeds fr \<Longrightarrow> \<exists>v. settles fr = Inr v"
  by (simp add: succeeds_settles)

lemma not_succeeds_settlesD: "\<not> succeeds fr \<Longrightarrow> \<exists>e. settles fr = Inl e"
  by (simp add: not_succeeds_settles)

text \<open>
  C1, as the code has it. For every block id, \<^verbatim>\<open>deleteCodeBlock\<close> issues one DELETE
  to \<open>/codeblocks/{id}\<close>. It resolves, returning no value, exactly when the response
  status is in 200-299 and the response body is a JSON text, whatever its value. It
  fails on a transport failure, on a status outside 200-299, and on a response in
  200-299 whose body is not a JSON text, the empty body among them.
\<close>

theorem deleteCodeBlock_outcome:
  "fst (deleteCodeBlock fetch i s) =
     (case fetch (deleteRequest i) of
        NetworkFailure \<Rightarrow> Inl FetchError
      | Response r \<Rightarrow>
          if 200 \<le> status r \<and> status r \<le> 299 then
            (case body r of
               JsonBody v \<Rightarrow> Inr ()
             | EmptyBody \<Rightarrow> Inl SyntaxError
             | MalformedBody \<Rightarrow> Inl SyntaxError)
          else Inl (HttpError (status r)))
   \<and> requests (snd (deleteCodeBlock fetch i s)) = requests s @ [deleteRequest i]
   \<and> url (deleteRequest (Num n)) = ''http://localhost:8000/codeblocks/'' @ numberToString n
   \<and> req_method (deleteRequest (Num n)) = Some ''DELETE''"
  by (simp add: deleteCodeBlock_eq settles_def deleteRequest_def
      split: fetch_result.splits body.splits sum.splits)

theorem deleteCodeBlock_outcome_witness:
  "fst (deleteCodeBlock (\<lambda>req. if req = deleteRequest (Num 7)
                                then Response \<lparr>status = 200, body = JsonBody ''deleted''\<rparr>
                                else NetworkFailure)
          (Num 7) initialState) = Inr ()
   \<and> url (deleteRequest (Num 7)) = ''http://localhost:8000/codeblocks/7''"
proof -
  let ?f = "\<lambda>req. if req = deleteRequest (Num 7)
                   then Response \<lparr>status = 200, body = JsonBody ''deleted''\<rparr>
                   else NetworkFailure"
  have n: "numberToString 7 = ''7''" by code_simp
  note t = deleteCodeBlock_outcome [of ?f "Num 7" initialState 7]
  show ?thesis using t n by simp
qed

text \<open>A response with status 204 and an empty body: the deletion is reported as failed,
  with the \<^verbatim>\<open>SyntaxError\<close> of \<^verbatim>\<open>response.json()\<close>.\<close>

theorem deleteCodeBlock_empty_body:
  "fst (deleteCodeBlock (\<lambda>req. Response \<lparr>status = 204, body = (EmptyBody :: unit body)\<rparr>)
          (Num 1) initialState) = Inl SyntaxError"
  by (simp add: deleteCodeBlock_eq settles_def)

section \<open>The handlers, step by step\<close>

lemma loadCodeBlocks_cases:
  obtains s' where "loadCodeBlocks net s = (Inr (), s')"
  using loadCodeBlocks_fulfils[of net s] by (cases "loadCodeBlocks net s") auto

lemma handleDelete_try_failure:
  assumes "settles (fetch_value net (deleteRequest i)) = Inl e"
  shows "handleDelete_try net i s =
     (Inl e, s\<lparr>requests := requests s @ [deleteRequest i],
               console := console s @ [(''API request failed:'', e)]\<rparr>)"
  using assms by (simp add: handleDelete_try_def deleteCodeBlock_eq)

lemma handleDelete_try_success:
  assumes "settles (fetch_value net (deleteRequest i)) = Inr v"
  shows "handleDelete_try net i s =
     (Inr (), (snd (loadCodeBlocks net (s\<lparr>requests := requests s @ [deleteRequest i]\<rparr>)))
                \<lparr>codeViewer := NoSelection, currentBlockId := Null\<rparr>)"
proof -
  obtain s' where l: "loadCodeBlocks net (s\<lparr>requests := requests s @ [deleteRequest i]\<rparr>) = (Inr (), s')"
    by (rule loadCodeBlocks_cases)
  show ?thesis using assms l by (simp add: handleDelete_try_def deleteCodeBlock_eq)
qed

lemma saveEdit_try_failure:
  assumes "settles (fetch_value net (updateRequest (currentBlockId s) bd)) = Inl e"
  shows "saveEdit_try net bd s =
     (Inl e, s\<lparr>requests := requests s @ [updateRequest (currentBlockId s) bd],
               console := console s @ [(''API request failed:'', e)]\<rparr>)"
  using assms by (simp add: saveEdit_try_def updateCodeBlock_eq)

lemma saveCodeBlock_mutation_eq:
  "saveCodeBlock_mutation net f s =
     (let req = (if truthy (editingId s) then updateRequest (editingIdNumber s) (saveCodeBlock_data f)
                 else createRequest (saveCodeBlock_data f))
      in case settles (fetch_value net req) of
           Inl e \<Rightarrow> (Inl e, s\<lparr>requests := requests s @ [req],
                               console := console s @ [(''API request failed:'', e)]\<rparr>)
         | Inr v \<Rightarrow> (Inr v, s\<lparr>requests := requests s @ [req]\<rparr>))"
  by (simp add: saveCodeBlock_mutation_def updateCodeBlock_eq createCodeBlock_eq Let_def)

lemma saveCodeBlock_try_failure:
  assumes "saveCodeBlock_mutation net f s = (Inl e, s1)"
  shows "saveCodeBlock_try net f s = (Inl e, s1)"
  using assms by (simp add: saveCodeBlock_try_def Let_def)



lemma loadCodeBlocks_failed_frame:
  assumes "\<not> succeeds (fetch_blocks net listRequest)"
  shows "codeBlocks (snd (loadCodeBlocks net s)) = codeBlocks s"
    "blocksList (snd (loadCodeBlocks net s)) = blocksList s"
    "categoryFilter_options (snd (loadCodeBlocks net s)) = categoryFilter_options s"
    "categoryFilter_value (snd (loadCodeBlocks net s)) = categoryFilter_value s"
    "alerts (snd (loadCodeBlocks net s)) = alerts s @ [loadFailedMessage]"
proof -
  obtain e where "settles (fetch_blocks net listRequest) = Inl e"
    using assms not_succeeds_settles by blast
  then show "codeBlocks (snd (loadCodeBlocks net s)) = codeBlocks s"
    "blocksList (snd (loadCodeBlocks net s)) = blocksList s"
    "categoryFilter_options (snd (loadCodeBlocks net s)) = categoryFilter_options s"
    "categoryFilter_value (snd (loadCodeBlocks net s)) = categoryFilter_value s"
    "alerts (snd (loadCodeBlocks net s)) = alerts s @ [loadFailedMessage]"
    by (simp_all add: loadCodeBlocks_failure)
qed



lemma aborted_500:
  assumes "fr = Response r" "status r = 500"
  shows "settles fr = Inl (HttpError 500)"
  using assms by (simp add: settles_def)

lemma handleDelete_success:
  assumes ok: "succeeds (fetch_value net (deleteRequest (toNumber (parseInt d))))"
  shows "handleDelete net True d s
      = (snd (loadCodeBlocks net (s\<lparr>requests := requests s @ [deleteRequest (toNumber (parseInt d))]\<rparr>)))
          \<lparr>codeViewer := NoSelection, currentBlockId := Null\<rparr>"
proof -
  let ?i = "toNumber (parseInt d)"
  obtain v where "settles (fetch_value net (deleteRequest ?i)) = Inr v"
    using succeeds_settlesD[OF ok] by (elim exE)
  then show ?thesis
    by (simp add: handleDelete_def Let_def handleDelete_try_success)
qed

lemma handleDelete_reload_failed:
  assumes ok: "succeeds (fetch_value net (deleteRequest (toNumber (parseInt d))))"
    and nf: "\<not> succeeds (fetch_blocks net listRequest)"
  shows "currentBlockId (handleDelete net True d s) = Null
         \<and> codeViewer (handleDelete net True d s) = NoSelection
         \<and> codeBlocks (handleDelete net True d s) = codeBlocks s
         \<and> alerts (handleDelete net True d s) = alerts s @ [loadFailedMessage]"
  by (simp add: handleDelete_success[OF ok] loadCodeBlocks_failed_frame[OF nf])


text \<open>When the alert of the \<^verbatim>\<open>catch\<close> branch of \<^verbatim>\<open>handleDelete\<close> is the one
  raised.\<close>

lemma loadCodeBlocks_alerts:
  "alerts (snd (loadCodeBlocks net s))
   = (if succeeds (fetch_blocks net listRequest) then alerts s else alerts s @ [loadFailedMessage])"
proof (cases "settles (fetch_blocks net listRequest)")
  case (Inl e)
  then have "\<not> succeeds (fetch_blocks net listRequest)" by (simp add: not_succeeds_settles)
  then show ?thesis using Inl by (simp add: loadCodeBlocks_failure)
next
  case (Inr bs)
  then have "succeeds (fetch_blocks net listRequest)" by (simp add: succeeds_settles)
  then show ?thesis using Inr
    by (simp add: loadCodeBlocks_success updateCategoryFilter_def renderBlocksList_def Let_def)
qed

lemma loadCodeBlocks_alerts_not:
  "msg \<noteq> loadFailedMessage \<Longrightarrow> alerts (snd (loadCodeBlocks net s)) \<noteq> alerts s @ [msg]"
  by (simp add: loadCodeBlocks_alerts)

lemma messages_differ: "''Failed to delete code block'' \<noteq> loadFailedMessage"
  by (simp add: loadFailedMessage_def)

lemma handleDelete_alert_iff:
  "(alerts (handleDelete net True d s) = alerts s @ [''Failed to delete code block''])
   = (\<not> succeeds (fetch_value net (deleteRequest (toNumber (parseInt d)))))"
proof (cases "succeeds (fetch_value net (deleteRequest (toNumber (parseInt d))))")
  case True
  let ?s1 = "s\<lparr>requests := requests s @ [deleteRequest (toNumber (parseInt d))]\<rparr>"
  have "alerts (snd (loadCodeBlocks net ?s1)) \<noteq> alerts ?s1 @ [''Failed to delete code block'']"
    using messages_differ by (rule loadCodeBlocks_alerts_not)
  then show ?thesis using True by (simp add: handleDelete_success)
next
  case False
  obtain e where "settles (fetch_value net (deleteRequest (toNumber (parseInt d)))) = Inl e"
    using not_succeeds_settlesD[OF False] by (elim exE)
  then show ?thesis using False
    by (simp add: handleDelete_def Let_def handleDelete_try_failure)
qed

section \<open>Failure of the API call\<close>

text \<open>
  C5. For each of the actions load, delete, update (inline and in the modal) and create:
  if the HTTP call of the action returns status 500, then the block list, the current
  selection (\<open>currentBlockId\<close>, \<open>isEditMode\<close>) and the page are left as they were,
  exactly one alert is raised, and the rest of the action is not performed: no further
  request is issued and no view changes.
\<close>

theorem http_500_aborts_the_action:
  "(fetch_blocks net listRequest = Response rb \<and> status rb = 500 \<longrightarrow>
      aborted_with loadFailedMessage listRequest s (snd (loadCodeBlocks net s)))
   \<and> (fetch_value net (deleteRequest (toNumber (parseInt d))) = Response r1 \<and> status r1 = 500 \<longrightarrow>
      aborted_with ''Failed to delete code block'' (deleteRequest (toNumber (parseInt d))) s
        (handleDelete net True d s))
   \<and> (find_block (currentBlockId s) (codeBlocks s) = Some b
      \<and> fetch_value net (updateRequest (currentBlockId s) (saveEdit_data c e t)) = Response r2
      \<and> status r2 = 500 \<longrightarrow>
      aborted_with ''Failed to save changes'' (updateRequest (currentBlockId s) (saveEdit_data c e t)) s
        (saveEdit net c e t s))
   \<and> (truthy (editingId s)
      \<and> fetch_value net (updateRequest (editingIdNumber s) (saveCodeBlock_data f)) = Response r3
      \<and> status r3 = 500 \<longrightarrow>
      aborted_with ''Failed to save code block''
        (updateRequest (editingIdNumber s) (saveCodeBlock_data f)) s (saveCodeBlock net f s))
   \<and> (\<not> truthy (editingId s)
      \<and> fetch_value net (createRequest (saveCodeBlock_data f)) = Response r4
      \<and> status r4 = 500 \<longrightarrow>
      aborted_with ''Failed to save code block'' (createRequest (saveCodeBlock_data f)) s
        (saveCodeBlock net f s))"
proof (intro conjI impI)
  assume "fetch_blocks net listRequest = Response rb \<and> status rb = 500"
  then have "settles (fetch_blocks net listRequest) = Inl (HttpError 500)"
    by (simp add: aborted_500)
  then show "aborted_with loadFailedMessage listRequest s (snd (loadCodeBlocks net s))"
    by (simp add: loadCodeBlocks_failure aborted_with_def)
next
  let ?i = "toNumber (parseInt d)"
  assume "fetch_value net (deleteRequest ?i) = Response r1 \<and> status r1 = 500"
  then have "settles (fetch_value net (deleteRequest ?i)) = Inl (HttpError 500)"
    by (simp add: aborted_500)
  then show "aborted_with ''Failed to delete code block'' (deleteRequest ?i) s (handleDelete net True d s)"
    by (simp add: handleDelete_def Let_def handleDelete_try_failure aborted_with_def)
next
  let ?bd = "saveEdit_data c e t"
  assume a: "find_block (currentBlockId s) (codeBlocks s) = Some b
      \<and> fetch_value net (updateRequest (currentBlockId s) ?bd) = Response r2 \<and> status r2 = 500"
  then have "settles (fetch_value net (updateRequest (currentBlockId s) ?bd)) = Inl (HttpError 500)"
    by (simp add: aborted_500)
  then show "aborted_with ''Failed to save changes'' (updateRequest (currentBlockId s) ?bd) s
        (saveEdit net c e t s)"
    using a by (simp add: saveEdit_def saveEdit_try_failure aborted_with_def)
next
  let ?bd = "saveCodeBlock_data f"
  assume a: "truthy (editingId s)
      \<and> fetch_value net (updateRequest (editingIdNumber s) ?bd) = Response r3 \<and> status r3 = 500"
  then have "settles (fetch_value net (updateRequest (editingIdNumber s) ?bd)) = Inl (HttpError 500)"
    by (simp add: aborted_500)
  then have "saveCodeBlock_mutation net f s =
      (Inl (HttpError 500), s\<lparr>requests := requests s @ [updateRequest (editingIdNumber s) ?bd],
               console := console s @ [(''API request failed:'', HttpError 500)]\<rparr>)"
    using a by (simp add: saveCodeBlock_mutation_eq)
  then show "aborted_with ''Failed to save code block'' (updateRequest (editingIdNumber s) ?bd) s
        (saveCodeBlock net f s)"
    by (simp add: saveCodeBlock_def saveCodeBlock_try_failure aborted_with_def)
next
  let ?bd = "saveCodeBlock_data f"
  assume a: "\<not> truthy (editingId s)
      \<and> fetch_value net (createRequest ?bd) = Response r4 \<and> status r4 = 500"
  then have "settles (fetch_value net (createRequest ?bd)) = Inl (HttpError 500)"
    by (simp add: aborted_500)
  then have "saveCodeBlock_mutation net f s =
      (Inl (HttpError 500), s\<lparr>requests := requests s @ [createRequest ?bd],
               console := console s @ [(''API request failed:'', HttpError 500)]\<rparr>)"
    using a by (simp add: saveCodeBlock_mutation_eq)
  then show "aborted_with ''Failed to save code block'' (createRequest ?bd) s
        (saveCodeBlock net f s)"
    by (simp add: saveCodeBlock_def saveCodeBlock_try_failure aborted_with_def)
qed

theorem http_500_aborts_the_action_witness:
  "aborted_with loadFailedMessage listRequest selectedState (snd (loadCodeBlocks net500 selectedState))
   \<and> aborted_with ''Failed to delete code block'' (deleteRequest (Num 1)) selectedState
        (handleDelete net500 True ''1'' selectedState)
   \<and> aborted_with ''Failed to save changes''
        (updateRequest (Num 1) (saveEdit_data ''y'' ''E'' ''1:a'')) selectedState
        (saveEdit net500 ''y'' ''E'' ''1:a'' selectedState)
   \<and> aborted_with ''Failed to save code block'' (createRequest (saveCodeBlock_data sampleForm))
        selectedState (saveCodeBlock net500 sampleForm selectedState)
   \<and> aborted_with ''Failed to save code block''
        (updateRequest (Num 2) (saveCodeBlock_data sampleForm))
        (selectedState\<lparr>editingId := Some ''2''\<rparr>)
        (saveCodeBlock net500 sampleForm (selectedState\<lparr>editingId := Some ''2''\<rparr>))"
proof -
  have p1: "toNumber (parseInt ''1'') = Num 1" by code_simp
  have cur: "currentBlockId selectedState = Num 1"
    by (simp add: selectedState_def)
  have fb: "find_block (currentBlockId selectedState) (codeBlocks selectedState) = Some sampleHello"
    by (simp add: selectedState_def initialState_def find_block_def sampleHello_def)
  have e0: "\<not> truthy (editingId selectedState)"
    by (simp add: selectedState_def initialState_def truthy_def)
  have e2: "truthy (editingId (selectedState\<lparr>editingId := Some ''2''\<rparr>))"
    "editingIdNumber (selectedState\<lparr>editingId := Some ''2''\<rparr>) = Num 2"
    by (simp add: truthy_def, code_simp)
  note t = http_500_aborts_the_action
    [of net500 "\<lparr>status = 500, body = EmptyBody\<rparr>" selectedState "''1''"
        "\<lparr>status = 500, body = EmptyBody\<rparr>" sampleHello "''y''" "''E''" "''1:a''"
        "\<lparr>status = 500, body = EmptyBody\<rparr>" sampleForm
        "\<lparr>status = 500, body = EmptyBody\<rparr>" "\<lparr>status = 500, body = EmptyBody\<rparr>"]
  note u = http_500_aborts_the_action
    [of net500 "\<lparr>status = 500, body = EmptyBody\<rparr>" "selectedState\<lparr>editingId := Some ''2''\<rparr>" "''1''"
        "\<lparr>status = 500, body = EmptyBody\<rparr>" sampleHello "''y''" "''E''" "''1:a''"
        "\<lparr>status = 500, body = EmptyBody\<rparr>" sampleForm
        "\<lparr>status = 500, body = EmptyBody\<rparr>" "\<lparr>status = 500, body = EmptyBody\<rparr>"]
  show ?thesis
    using t u p1 fb e0 e2 by (simp add: net500_def cur)
qed

section \<open>A reload that fails, and a redisplay that throws\<close>

text \<open>\<^verbatim>\<open>loadCodeBlocks\<close> never rejects (\<open>loadCodeBlocks_fulfils\<close>), and with a
  successful DELETE and a failed reload \<^verbatim>\<open>handleDelete\<close> still clears the selection and
  the detail view (\<open>handleDelete_reload_failed\<close>); its own alert is the one raised
  exactly when the DELETE fails (\<open>handleDelete_alert_iff\<close>).\<close>


section \<open>Saving an inline edit\<close>




section \<open>The read view\<close>





lemma truthy_iff: "truthy v = (\<exists>t. v = Some t \<and> t \<noteq> [])"
  by (cases v) (simp_all add: truthy_def)

lemma codeLineElement_fields:
  "dataLineNumber (codeLineElement b (line, k)) = numberToString (int k + 1)"
  "lineTextHTML (codeLineElement b (line, k)) = escapeHtml line"
  "highlighted (codeLineElement b (line, k)) = False"
  "(clickableClass (codeLineElement b (line, k)) = ''clickable'')
     = (\<exists>t. explanationAt b (int k + 1) = Some t \<and> t \<noteq> [])"
  by (simp_all add: codeLineElement_def Let_def truthy_iff)





section \<open>What is escaped\<close>

lemma escapeHtml_char_no_angle:
  "CHR ''<'' \<notin> set (escapeHtml_char c) \<and> CHR ''>'' \<notin> set (escapeHtml_char c)"
  by (simp add: escapeHtml_char_def)

lemma escapeHtml_no_angle:
  "CHR ''<'' \<notin> set (escapeHtml t) \<and> CHR ''>'' \<notin> set (escapeHtml t)"
  using escapeHtml_char_no_angle by (induction t) (auto simp: escapeHtml_def)

lemma decodeText_escapeHtml: "decodeText (escapeHtml t) = t"
proof (induction t)
  case Nil
  show ?case by (simp add: escapeHtml_def)
next
  case (Cons c t)
  have e: "escapeHtml (c # t) = escapeHtml_char c @ escapeHtml t"
    by (simp add: escapeHtml_def)
  show ?case unfolding e using Cons by (simp add: escapeHtml_char_def)
qed

lemma lineTextHTML_readViewOf:
  "map lineTextHTML (rv_lines (readViewOf b)) = map escapeHtml (codeLinesOf b)"
proof -
  have "map lineTextHTML (map (codeLineElement b) (zip xs [n..<n + length xs])) = map escapeHtml xs"
    for xs n
  proof (induction xs arbitrary: n)
    case Nil
    show ?case by simp
  next
    case (Cons x xs)
    have "[n..<n + length (x # xs)] = n # [Suc n..<Suc n + length xs]"
      by (simp add: upt_rec)
    then show ?case using Cons[of "Suc n"] by (simp add: codeLineElement_fields)
  qed
  from this[of "codeLinesOf b" 0] show ?thesis
    by (simp add: readViewOf_def Let_def codeLinesOf_def)
qed

lemma viewerHTML_renderReadView:
  "viewerHTML (codeViewer (renderReadView b s)) = Some (readViewHTML (readViewOf b))"
  by (simp add: renderReadView_def Let_def viewerHTML_def)

lemma includes_codeLineHTML:
  \<open>includes_str (codeLineHTML l) (''<div class="code-line-text">'' @ lineTextHTML l @ ''</div>'')\<close>
  unfolding codeLineHTML_def
  apply (rule includes_str_skip, rule includes_str_skip, rule includes_str_skip, rule includes_str_skip)
  apply (rule includes_str_skip, rule includes_str_skip, rule includes_str_skip)
  apply (simp add: startsWith_append_same)
  done

lemma includes_popupHTML:
  \<open>includes_str (popupHTML p) (''<div class="popup-content">'' @ popup_explanationHTML p @ ''</div>'')\<close>
  unfolding popupHTML_def
  apply (rule includes_str_skip, rule includes_str_skip, rule includes_str_skip, rule includes_str_skip)
  apply (rule includes_str_skip, rule includes_str_skip)
  apply (simp add: startsWith_append_same)
  done

lemma includes_readViewHTML_title:
  \<open>includes_str (readViewHTML rv) (''<h3>'' @ rv_titleHTML rv @ ''</h3>'')\<close>
  unfolding readViewHTML_def
  apply (rule includes_str_skip, rule includes_str_skip, rule includes_str_skip)
  apply (simp add: startsWith_append_same)
  done

lemma includes_readViewHTML_lines:
  \<open>includes_str (readViewHTML rv) (concat (map codeLineHTML (rv_lines rv)))\<close>
  unfolding readViewHTML_def
  apply (rule includes_str_skip, rule includes_str_skip, rule includes_str_skip, rule includes_str_skip)
  apply (rule includes_str_skip, rule includes_str_skip, rule includes_str_skip, rule includes_str_skip)
  apply (rule includes_str_skip, rule includes_str_skip, rule includes_str_skip, rule includes_str_skip)
  apply (rule includes_str_skip, rule includes_str_skip, rule includes_str_skip, rule includes_str_skip)
  apply (rule includes_str_skip, rule includes_str_skip, rule includes_str_skip, rule includes_str_skip)
  apply (rule includes_str_skip)
  apply (rule includes_str_prefix)
  done

lemma includes_readViewHTML_explanation:
  \<open>includes_str (readViewHTML rv) (''<p>'' @ rv_explanationHTML rv @ ''</p>'')\<close>
  unfolding readViewHTML_def
  apply (rule includes_str_skip, rule includes_str_skip, rule includes_str_skip, rule includes_str_skip)
  apply (rule includes_str_skip, rule includes_str_skip, rule includes_str_skip, rule includes_str_skip)
  apply (rule includes_str_skip, rule includes_str_skip, rule includes_str_skip, rule includes_str_skip)
  apply (rule includes_str_skip, rule includes_str_skip, rule includes_str_skip, rule includes_str_skip)
  apply (rule includes_str_skip, rule includes_str_skip, rule includes_str_skip, rule includes_str_skip)
  apply (rule includes_str_skip, rule includes_str_skip, rule includes_str_skip, rule includes_str_skip)
  apply (rule includes_str_skip, rule includes_str_skip)
  apply (simp add: startsWith_append_same)
  done

text \<open>
  C9. In read mode the text written to the viewer is the template filled with the
  block's fields (the id printed as a safe integer). The text of every code line is
  passed through \<^verbatim>\<open>escapeHtml\<close> before it is put there: what \<^verbatim>\<open>escapeHtml\<close> returns
  holds neither \<open><\<close> nor \<open>>\<close> and stands for the line, which is read back from it by
  replacing the character references. The title, the general explanation and the line
  explanation of the popup are put into the text assigned to \<^verbatim>\<open>innerHTML\<close> as they
  are, between the tags of their elements, so markup in them reaches the document as
  markup.
\<close>

theorem read_view_escapes_only_the_code:
  assumes "safeInteger (block_id b)"
  shows \<open>viewerHTML (codeViewer (renderReadView b s)) = Some (readViewHTML (readViewOf b))
   \<and> rv_titleHTML (readViewOf b) = title b
   \<and> rv_explanationHTML (readViewOf b) = explanation b
   \<and> map lineTextHTML (rv_lines (readViewOf b)) = map escapeHtml (codeLinesOf b)
   \<and> decodeText (escapeHtml t) = t
   \<and> CHR ''<'' \<notin> set (escapeHtml t) \<and> CHR ''>'' \<notin> set (escapeHtml t)
   \<and> includes_str (readViewHTML rv) (''<h3>'' @ rv_titleHTML rv @ ''</h3>'')
   \<and> includes_str (readViewHTML rv) (concat (map codeLineHTML (rv_lines rv)))
   \<and> includes_str (codeLineHTML l) (''<div class="code-line-text">'' @ lineTextHTML l @ ''</div>'')
   \<and> includes_str (readViewHTML rv) (''<p>'' @ rv_explanationHTML rv @ ''</p>'')
   \<and> currentExplanationPopup (showExplanationPopup expl n s)
         = Some \<lparr>popup_lineNumber = n, popup_explanationHTML = expl\<rparr>
   \<and> includes_str (popupHTML \<lparr>popup_lineNumber = n, popup_explanationHTML = expl\<rparr>)
         (''<div class="popup-content">'' @ expl @ ''</div>'')\<close>
proof -
  note 1 = viewerHTML_renderReadView [of b s]
  have 2: "rv_titleHTML (readViewOf b) = title b"
    by (simp add: readViewOf_def Let_def)
  have 3: "rv_explanationHTML (readViewOf b) = explanation b"
    by (simp add: readViewOf_def Let_def)
  note 4 = lineTextHTML_readViewOf [of b]
  note 5 = decodeText_escapeHtml [of t]
  note 6 = escapeHtml_no_angle [of t]
  note 7 = includes_readViewHTML_title [of rv]
  note 8 = includes_readViewHTML_lines [of rv]
  note 9 = includes_codeLineHTML [of l]
  note 10 = includes_readViewHTML_explanation [of rv]
  have 11: "currentExplanationPopup (showExplanationPopup expl n s)
         = Some \<lparr>popup_lineNumber = n, popup_explanationHTML = expl\<rparr>"
    by (simp add: showExplanationPopup_def Let_def closeExplanationPopup_def)
  have 12: \<open>includes_str (popupHTML \<lparr>popup_lineNumber = n, popup_explanationHTML = expl\<rparr>)
         (''<div class="popup-content">'' @ expl @ ''</div>'')\<close>
    using includes_popupHTML [of "\<lparr>popup_lineNumber = n, popup_explanationHTML = expl\<rparr>"] by simp
  from 1 2 3 4 5 6 7 8 9 10 11 12 show ?thesis by (intro conjI) simp_all
qed

theorem read_view_escapes_only_the_code_witness:
  \<open>map lineTextHTML (rv_lines (readViewOf markupBlock)) = [''a&lt;b'']
   \<and> decodeText ''a&lt;b'' = ''a<b''
   \<and> includes_str (popupHTML \<lparr>popup_lineNumber = 1, popup_explanationHTML = ''<u>x</u>''\<rparr>)
         ''<div class="popup-content"><u>x</u></div>''
   \<and> viewerHTML (codeViewer (renderReadView markupBlock initialState))
       = Some (readViewHTML (readViewOf markupBlock))
   \<and> includes_str (readViewHTML (readViewOf markupBlock)) ''<h3><b>T</b></h3>''
   \<and> includes_str (readViewHTML (readViewOf markupBlock)) ''<p><i>E</i></p>''\<close>
proof -
  have sf: "safeInteger (block_id markupBlock)" by code_simp
  have c: "map escapeHtml (codeLinesOf markupBlock) = [''a&lt;b'']" by code_simp
  have e: "escapeHtml ''a<b'' = ''a&lt;b''" by code_simp
  note th = read_view_escapes_only_the_code
    [OF sf, of initialState "''a<b''" "readViewOf markupBlock"
       "codeLineElement markupBlock ([], 0)" "''<u>x</u>''" 1]
  have 1: "map lineTextHTML (rv_lines (readViewOf markupBlock)) = [''a&lt;b'']"
    using th unfolding c by (elim conjE)
  have 2: "decodeText ''a&lt;b'' = ''a<b''"
    using th unfolding e by (elim conjE)
  have 3: \<open>includes_str (popupHTML \<lparr>popup_lineNumber = 1, popup_explanationHTML = ''<u>x</u>''\<rparr>)
         ''<div class="popup-content"><u>x</u></div>''\<close>
    using th by simp
  have 4: "viewerHTML (codeViewer (renderReadView markupBlock initialState))
       = Some (readViewHTML (readViewOf markupBlock))"
    using th by (elim conjE)
  have t: "rv_titleHTML (readViewOf markupBlock) = ''<b>T</b>''"
    "rv_explanationHTML (readViewOf markupBlock) = ''<i>E</i>''"
    by (simp_all add: readViewOf_def Let_def markupBlock_def)
  have 5: \<open>includes_str (readViewHTML (readViewOf markupBlock)) ''<h3><b>T</b></h3>''\<close>
    using th unfolding t by simp
  have 6: \<open>includes_str (readViewHTML (readViewOf markupBlock)) ''<p><i>E</i></p>''\<close>
    using th unfolding t by simp
  from 1 2 3 4 5 6 show ?thesis by (intro conjI)
qed

end
